theory Spec2Isabelle
  imports Main "HOL-Library.AList" "HOL-Library.Char_ord" "HOL-Library.List_Lexorder"
    "HOL-Library.Multiset"
begin

section \<open>Python values used by the warehouse module\<close>

text \<open>
  The module reads lines of text, cuts them at commas and keeps product codes in a
  \<^verbatim>\<open>defaultdict(deque)\<close>, a list of alerts and a list of parcels. Strings are modelled
  as \<^typ>\<open>string\<close> over the ASCII alphabet: the character classes below are Python's
  \<^verbatim>\<open>str.isspace\<close>, \<^verbatim>\<open>str.isalpha\<close> and \<^verbatim>\<open>str.upper\<close> restricted to code points
  below 128; a character above that range is carried through unchanged and belongs to no
  class. The exceptions the code could meet are values of \<open>py_error\<close>: every method
  returns \<open>py_error + entrepot\<close>, and each call that can raise in Python
  (\<^verbatim>\<open>list.remove\<close>, \<^verbatim>\<open>deque.popleft\<close>, \<^verbatim>\<open>s[0]\<close>, \<^verbatim>\<open>int\<close>) is a branch of the model.
  The interactive menu of \<^verbatim>\<open>main\<close> is not modelled; the states it can reach are those of
  the predicate \<open>atteignable\<close> below.
\<close>

datatype py_error = ValueError | IndexError

definition isspace :: "char \<Rightarrow> bool" where
  \<comment> \<open>\<^verbatim>\<open>str.isspace\<close>: TAB, LF, VT, FF, CR, the separators 0x1C..0x1F and the blank.\<close>
  "isspace c = (let n = (of_char c :: nat) in (9 \<le> n \<and> n \<le> 13) \<or> (28 \<le> n \<and> n \<le> 32))"

definition c_isspace :: "char \<Rightarrow> bool" where
  \<comment> \<open>The whitespace that \<^verbatim>\<open>int()\<close> skips around an ASCII literal: TAB..CR and the blank.\<close>
  "c_isspace c = (let n = (of_char c :: nat) in (9 \<le> n \<and> n \<le> 13) \<or> n = 32)"

definition isalpha :: "char \<Rightarrow> bool" where
  "isalpha c = (let n = (of_char c :: nat) in (65 \<le> n \<and> n \<le> 90) \<or> (97 \<le> n \<and> n \<le> 122))"

definition isdigit :: "char \<Rightarrow> bool" where
  "isdigit c = (let n = (of_char c :: nat) in 48 \<le> n \<and> n \<le> 57)"

definition upper_char :: "char \<Rightarrow> char" where
  "upper_char c = (let n = (of_char c :: nat) in if 97 \<le> n \<and> n \<le> 122 then char_of (n - 32) else c)"

definition upper :: "string \<Rightarrow> string" where
  "upper s = map upper_char s"

definition strip :: "string \<Rightarrow> string" where
  "strip s = rev (dropWhile isspace (rev (dropWhile isspace s)))"

fun split_comma :: "string \<Rightarrow> string list" where
  \<comment> \<open>\<^verbatim>\<open>s.split(',')\<close>: one field more than there are commas, empty fields kept.\<close>
  "split_comma [] = [[]]"
| "split_comma (c # cs) =
     (if c = CHR '','' then [] # split_comma cs
      else (case split_comma cs of [] \<Rightarrow> [[c]] | w # ws \<Rightarrow> (c # w) # ws))"

definition nettoyer :: "string \<Rightarrow> string list" where
  \<comment> \<open>\<^verbatim>\<open>[p.strip().upper() for p in chaine.split(',')]\<close>\<close>
  "nettoyer chaine = map (\<lambda>p. upper (strip p)) (split_comma chaine)"

subsection \<open>\<^verbatim>\<open>int(str)\<close> in base 10\<close>

definition max_str_digits :: nat where
  \<comment> \<open>The default bound of recent CPython on the digits of a decimal literal given to
      \<^verbatim>\<open>int\<close>: a longer one raises ValueError.\<close>
  "max_str_digits = 4300"

definition digit_or_underscore :: "char \<Rightarrow> bool" where
  "digit_or_underscore c = (isdigit c \<or> c = CHR ''_'')"

fun double_underscore :: "string \<Rightarrow> bool" where
  "double_underscore (a # b # r) =
     ((a = CHR ''_'' \<and> b = CHR ''_'') \<or> double_underscore (b # r))"
| "double_underscore _ = False"

definition decimal :: "string \<Rightarrow> int" where
  "decimal ds = fold (\<lambda>c acc. 10 * acc + int (of_char c - 48)) ds 0"

definition py_int :: "string \<Rightarrow> py_error + int" where
  \<comment> \<open>Whitespace, an optional sign, digits with single underscores between them, whitespace.\<close>
  "py_int s =
     (let s1 = dropWhile c_isspace s;
          neg = (case s1 of [] \<Rightarrow> False | c # _ \<Rightarrow> c = CHR ''-'');
          s2 = (case s1 of [] \<Rightarrow> [] | c # r \<Rightarrow> if c = CHR ''-'' \<or> c = CHR ''+'' then r else s1);
          run = takeWhile digit_or_underscore s2;
          rest = dropWhile digit_or_underscore s2;
          ds = filter isdigit run
      in if run = [] \<or> hd run = CHR ''_'' \<or> last run = CHR ''_'' \<or> double_underscore run
            \<or> \<not> list_all c_isspace rest \<or> max_str_digits < length ds
         then Inl ValueError
         else Inr (if neg then - decimal ds else decimal ds))"

subsection \<open>Lists and deques\<close>

definition list_remove :: "'a \<Rightarrow> 'a list \<Rightarrow> py_error + 'a list" where
  \<comment> \<open>\<^verbatim>\<open>list.remove(x)\<close>: drops the first occurrence, ValueError when there is none.\<close>
  "list_remove x xs = (if x \<in> set xs then Inr (remove1 x xs) else Inl ValueError)"

definition popleft :: "'a list \<Rightarrow> py_error + ('a \<times> 'a list)" where
  \<comment> \<open>\<^verbatim>\<open>deque.popleft()\<close>: IndexError on an empty deque.\<close>
  "popleft q = (case q of [] \<Rightarrow> Inl IndexError | x # r \<Rightarrow> Inr (x, r))"

definition str_getitem :: "string \<Rightarrow> nat \<Rightarrow> py_error + char" where
  \<comment> \<open>\<^verbatim>\<open>s[i]\<close> for an index that is not negative.\<close>
  "str_getitem s i = (if i < length s then Inr (s ! i) else Inl IndexError)"

definition list_sort_reverse :: "('a \<Rightarrow> int) \<Rightarrow> 'a list \<Rightarrow> 'a list" where
  \<comment> \<open>\<^verbatim>\<open>list.sort(key=k, reverse=True)\<close>: the list is reversed, sorted by a stable
      ascending sort and reversed again.\<close>
  "list_sort_reverse k xs = rev (sort_key k (rev xs))"

section \<open>The warehouse\<close>

text \<open>
  A line written by \<^verbatim>\<open>print\<close>, with the values interpolated in it. The console is part of
  the state (field \<open>sortie\<close>): every notice of the module is appended to it.
\<close>

datatype ligne =
    Format_invalide string
  | Resolu string nat nat
  | Stock_bas string nat nat
  | Alerte_activee string
  | Log_plein string
  | Entete_inventaire
  | Inventaire_vide
  | Ligne_produit string nat bool
  | Rupture string
  | Colis_cree nat
  | Aucun_colis
  | Entete_colis nat
  | Ligne_article string
  | Pied_colis

record article =
  id_art :: string
  vol :: int

record entrepot =
  stock :: "(string \<times> string list) list"
  log_alertes :: "string list"
  liste_colis :: "article list list"
  sortie :: "ligne list"

definition seuil_min :: nat where
  \<comment> \<open>Assigned once, in the constructor, and read-only afterwards.\<close>
  "seuil_min = 2"

definition py_print :: "ligne \<Rightarrow> entrepot \<Rightarrow> entrepot" where
  "py_print l s = s\<lparr>sortie := sortie s @ [l]\<rparr>"

definition stock_getitem :: "entrepot \<Rightarrow> string \<Rightarrow> string list \<times> entrepot" where
  \<comment> \<open>\<^verbatim>\<open>self.stock[k]\<close> on the defaultdict: a missing key is inserted with an empty deque.\<close>
  "stock_getitem s k =
     (case map_of (stock s) k of
        Some q \<Rightarrow> (q, s)
      | None \<Rightarrow> ([], s\<lparr>stock := stock s @ [(k, [])]\<rparr>))"

definition stock_contains :: "entrepot \<Rightarrow> string \<Rightarrow> bool" where
  \<comment> \<open>\<^verbatim>\<open>k in entrepot.stock\<close>: a test of the keys, which inserts nothing.\<close>
  "stock_contains s k = (map_of (stock s) k \<noteq> None)"

definition stock_store :: "entrepot \<Rightarrow> string \<Rightarrow> string list \<Rightarrow> entrepot" where
  \<comment> \<open>The deque held under \<open>k\<close> after it was changed in place.\<close>
  "stock_store s k q = s\<lparr>stock := AList.update k q (stock s)\<rparr>"

definition quantite :: "entrepot \<Rightarrow> string \<Rightarrow> nat" where
  \<comment> \<open>The units held for a code: the length of its deque, none when the key is absent.\<close>
  "quantite s k = (case map_of (stock s) k of None \<Rightarrow> 0 | Some q \<Rightarrow> length q)"

definition verifier_et_nettoyer_alerte :: "entrepot \<Rightarrow> string \<Rightarrow> py_error + entrepot" where
  "verifier_et_nettoyer_alerte s id_produit =
     (let (q, s1) = stock_getitem s id_produit;
          qte = length q
      in if id_produit \<in> set (log_alertes s1) then
           if seuil_min \<le> qte then
             (case list_remove id_produit (log_alertes s1) of
                Inl e \<Rightarrow> Inl e
              | Inr l \<Rightarrow> Inr (py_print (Resolu id_produit qte seuil_min) (s1\<lparr>log_alertes := l\<rparr>)))
           else Inr (py_print (Stock_bas id_produit qte seuil_min) s1)
         else Inr s1)"

definition enregistrer_alerte :: "entrepot \<Rightarrow> string \<Rightarrow> py_error + entrepot" where
  "enregistrer_alerte s id_produit =
     (let (q, s1) = stock_getitem s id_produit
      in if seuil_min \<le> length q then Inr s1
         else if id_produit \<in> set (log_alertes s1) then Inr s1
         else if length (log_alertes s1) < 3 then
           Inr (py_print (Alerte_activee id_produit)
                  (s1\<lparr>log_alertes := log_alertes s1 @ [id_produit]\<rparr>))
         else Inr (py_print (Log_plein id_produit) s1))"

definition format_valide :: "string \<Rightarrow> py_error + bool" where
  \<comment> \<open>\<^verbatim>\<open>len(p) >= 2 and p[0].isalpha()\<close>, the index read only when the length allows it.\<close>
  "format_valide p =
     (if 2 \<le> length p then
        (case str_getitem p 0 of Inl e \<Rightarrow> Inl e | Inr c \<Rightarrow> Inr (isalpha c))
      else Inr False)"

definition ajouter_produit :: "entrepot \<Rightarrow> string \<Rightarrow> py_error + entrepot" where
  \<comment> \<open>The body of the loop of \<open>ajouter_lot\<close>.\<close>
  "ajouter_produit s id_produit =
     (case format_valide id_produit of
        Inl e \<Rightarrow> Inl e
      | Inr ok \<Rightarrow>
          if ok then
            (let (q, s1) = stock_getitem s id_produit;
                 s2 = stock_store s1 id_produit (q @ [id_produit])
             in verifier_et_nettoyer_alerte s2 id_produit)
          else Inr (py_print (Format_invalide id_produit) s))"

fun ajouter_boucle :: "entrepot \<Rightarrow> string list \<Rightarrow> py_error + entrepot" where
  "ajouter_boucle s [] = Inr s"
| "ajouter_boucle s (p # ps) =
     (case ajouter_produit s p of Inl e \<Rightarrow> Inl e | Inr s' \<Rightarrow> ajouter_boucle s' ps)"

definition ajouter_lot :: "entrepot \<Rightarrow> string \<Rightarrow> py_error + entrepot" where
  "ajouter_lot s chaine_produits = ajouter_boucle s (nettoyer chaine_produits)"

definition initialiser_stock_defaut :: "entrepot \<Rightarrow> py_error + entrepot" where
  "initialiser_stock_defaut s = ajouter_lot s ''A3, A3, B5, B5, C1, C1, A2, A2''"

definition Entrepot_init :: "py_error + entrepot" where
  \<comment> \<open>\<^verbatim>\<open>Entrepot()\<close>: empty fields, then the default batch.\<close>
  "Entrepot_init =
     initialiser_stock_defaut \<lparr>stock = [], log_alertes = [], liste_colis = [], sortie = []\<rparr>"

definition afficher_inventaire :: "entrepot \<Rightarrow> py_error + entrepot" where
  \<comment> \<open>The keys of a dict are distinct, so sorting the items sorts them by key.\<close>
  "afficher_inventaire s =
     (let s1 = py_print Entete_inventaire s;
          s2 = (if stock s1 = [] then py_print Inventaire_vide s1 else s1)
      in Inr (fold (\<lambda>(id_produit, articles) acc.
                      py_print (Ligne_produit id_produit (length articles)
                                  (length articles < seuil_min)) acc)
                   (sort_key fst (stock s2)) s2))"

section \<open>Packing\<close>

definition volume_de :: "string \<Rightarrow> py_error + int" where
  \<comment> \<open>\<^verbatim>\<open>try: volume = int(p[1:])\<close> / \<^verbatim>\<open>except ValueError: volume = 0\<close>\<close>
  "volume_de id_produit =
     (case py_int (drop 1 id_produit) of
        Inr v \<Rightarrow> Inr v
      | Inl e \<Rightarrow> (if e = ValueError then Inr 0 else Inl e))"

definition disponible :: "entrepot \<Rightarrow> string \<Rightarrow> bool" where
  \<comment> \<open>\<^verbatim>\<open>p in entrepot.stock and entrepot.stock[p]\<close>: the read happens for a known key only.\<close>
  "disponible s id_produit =
     (stock_contains s id_produit \<and> fst (stock_getitem s id_produit) \<noteq> [])"

definition prelever :: "entrepot \<times> article list \<Rightarrow> string \<Rightarrow> py_error + entrepot \<times> article list" where
  \<comment> \<open>The two branches of the availability test in the loop of \<open>preparer_colis\<close>.\<close>
  "prelever sc id_produit =
     (let (s, contenu_colis) = sc
      in if disponible s id_produit then
           (case volume_de id_produit of
              Inl e \<Rightarrow> Inl e
            | Inr volume \<Rightarrow>
                (let contenu = contenu_colis @ [\<lparr>id_art = id_produit, vol = volume\<rparr>];
                     (q, s1) = stock_getitem s id_produit
                 in case popleft q of
                      Inl e \<Rightarrow> Inl e
                    | Inr (u, r) \<Rightarrow> Inr (stock_store s1 id_produit r, contenu)))
         else Inr (py_print (Rupture id_produit) s, contenu_colis))"

definition colis_produit :: "entrepot \<times> article list \<Rightarrow> string \<Rightarrow> py_error + entrepot \<times> article list" where
  \<comment> \<open>The body of the loop of \<open>preparer_colis\<close>.\<close>
  "colis_produit sc id_produit =
     (if id_produit = [] then Inr sc
      else (case prelever sc id_produit of
              Inl e \<Rightarrow> Inl e
            | Inr (s1, contenu) \<Rightarrow>
                (case enregistrer_alerte s1 id_produit of
                   Inl e \<Rightarrow> Inl e
                 | Inr s2 \<Rightarrow> Inr (s2, contenu))))"

fun colis_boucle :: "entrepot \<times> article list \<Rightarrow> string list \<Rightarrow> py_error + entrepot \<times> article list" where
  "colis_boucle sc [] = Inr sc"
| "colis_boucle sc (p # ps) =
     (case colis_produit sc p of Inl e \<Rightarrow> Inl e | Inr sc' \<Rightarrow> colis_boucle sc' ps)"

definition preparer_colis :: "entrepot \<Rightarrow> string \<Rightarrow> py_error + entrepot" where
  "preparer_colis entrepot chaine_commande =
     (case colis_boucle (entrepot, []) (nettoyer chaine_commande) of
        Inl e \<Rightarrow> Inl e
      | Inr (s1, contenu) \<Rightarrow>
          (let contenu_colis = list_sort_reverse vol contenu
           in if contenu_colis \<noteq> [] then
                Inr (py_print (Colis_cree (length contenu_colis))
                       (s1\<lparr>liste_colis := liste_colis s1 @ [contenu_colis]\<rparr>))
              else Inr s1))"

definition afficher_un_colis :: "nat \<times> article list \<Rightarrow> entrepot \<Rightarrow> entrepot" where
  "afficher_un_colis ic s =
     (let (index, colis) = ic;
          s1 = py_print (Entete_colis (index + 1)) s;
          s2 = fold (\<lambda>a acc. py_print (Ligne_article (id_art a)) acc) (rev colis) s1
      in py_print Pied_colis s2)"

definition afficher_colis :: "entrepot \<Rightarrow> py_error + entrepot" where
  "afficher_colis s =
     (if liste_colis s = [] then Inr (py_print Aucun_colis s)
      else Inr (fold afficher_un_colis (enumerate 0 (liste_colis s)) s))"

section \<open>Observers and reachable states\<close>

text \<open>
  \<open>volume_de\<close> never raises (lemma \<open>volume_de_volume\<close> below); \<open>volume\<close> names the
  integer it returns.
\<close>

definition volume :: "string \<Rightarrow> int" where
  "volume p = (case volume_de p of Inr v \<Rightarrow> v | Inl e \<Rightarrow> 0)"

text \<open>Recognisers of two kinds of printed lines, used to count them.\<close>

definition est_rupture :: "ligne \<Rightarrow> bool" where
  "est_rupture l = (case l of Rupture p \<Rightarrow> True | _ \<Rightarrow> False)"


text \<open>
  The invariant of the alert log: no code twice, at most three codes, and every code in
  the log is below the threshold.
\<close>

definition log_coherent :: "entrepot \<Rightarrow> bool" where
  "log_coherent s =
     (distinct (log_alertes s) \<and> length (log_alertes s) \<le> 3
      \<and> (\<forall>k \<in> set (log_alertes s). quantite s k < seuil_min))"

text \<open>
  The states of a session: the constructor builds the first one, and every method of the
  two classes, called with any argument, leads from one state to the next.
\<close>

inductive atteignable :: "entrepot \<Rightarrow> bool" where
  init: "Entrepot_init = Inr s \<Longrightarrow> atteignable s"
| ajout: "atteignable s \<Longrightarrow> ajouter_lot s chaine = Inr s' \<Longrightarrow> atteignable s'"
| colis: "atteignable s \<Longrightarrow> preparer_colis s chaine = Inr s' \<Longrightarrow> atteignable s'"
| alerte: "atteignable s \<Longrightarrow> enregistrer_alerte s k = Inr s' \<Longrightarrow> atteignable s'"
| nettoyage: "atteignable s \<Longrightarrow> verifier_et_nettoyer_alerte s k = Inr s' \<Longrightarrow> atteignable s'"
| inventaire: "atteignable s \<Longrightarrow> afficher_inventaire s = Inr s' \<Longrightarrow> atteignable s'"
| expedition: "atteignable s \<Longrightarrow> afficher_colis s = Inr s' \<Longrightarrow> atteignable s'"

definition etat_defaut :: entrepot where
  \<comment> \<open>The state that \<^verbatim>\<open>Entrepot()\<close> returns (lemma \<open>Entrepot_init_defaut\<close>).\<close>
  "etat_defaut =
     \<lparr>stock = [(''A3'', [''A3'', ''A3'']), (''B5'', [''B5'', ''B5'']),
               (''C1'', [''C1'', ''C1'']), (''A2'', [''A2'', ''A2''])],
      log_alertes = [], liste_colis = [], sortie = []\<rparr>"

definition etat_log_plein :: entrepot where
  \<comment> \<open>The default state after the order \<^verbatim>\<open>A3,A3,B5,B5,C1,C1\<close>: three alerts.\<close>
  "etat_log_plein =
     \<lparr>stock = [(''A3'', []), (''B5'', []), (''C1'', []), (''A2'', [''A2'', ''A2''])],
      log_alertes = [''A3'', ''B5'', ''C1''],
      liste_colis =
        [[\<lparr>id_art = ''B5'', vol = 5\<rparr>, \<lparr>id_art = ''B5'', vol = 5\<rparr>,
          \<lparr>id_art = ''A3'', vol = 3\<rparr>, \<lparr>id_art = ''A3'', vol = 3\<rparr>,
          \<lparr>id_art = ''C1'', vol = 1\<rparr>, \<lparr>id_art = ''C1'', vol = 1\<rparr>]],
      sortie = [Alerte_activee ''A3'', Alerte_activee ''B5'', Alerte_activee ''C1'', Colis_cree 6]\<rparr>"

definition etat_avant_verification :: entrepot where
  \<comment> \<open>The state inside \<^verbatim>\<open>ajouter_lot("C1,C1")\<close> on \<open>etat_log_plein\<close>, after the second
      unit is appended and before the check.\<close>
  "etat_avant_verification =
     \<lparr>stock = [(''A3'', []), (''B5'', []), (''C1'', [''C1'', ''C1'']), (''A2'', [''A2'', ''A2''])],
      log_alertes = [''A3'', ''B5'', ''C1''],
      liste_colis = liste_colis etat_log_plein,
      sortie = sortie etat_log_plein @ [Stock_bas ''C1'' 1 2]\<rparr>"

definition etat_AB :: entrepot where
  \<comment> \<open>The default state after \<^verbatim>\<open>ajouter_lot("AB,AB,AB")\<close>.\<close>
  "etat_AB =
     \<lparr>stock = [(''A3'', [''A3'', ''A3'']), (''B5'', [''B5'', ''B5'']),
               (''C1'', [''C1'', ''C1'']), (''A2'', [''A2'', ''A2'']),
               (''AB'', [''AB'', ''AB'', ''AB''])],
      log_alertes = [], liste_colis = [], sortie = []\<rparr>"

definition etat_A1_C3 :: entrepot where
  \<comment> \<open>The default state after \<^verbatim>\<open>ajouter_lot("a1, c3")\<close>.\<close>
  "etat_A1_C3 =
     \<lparr>stock = [(''A3'', [''A3'', ''A3'']), (''B5'', [''B5'', ''B5'']),
               (''C1'', [''C1'', ''C1'']), (''A2'', [''A2'', ''A2'']),
               (''A1'', [''A1'']), (''C3'', [''C3''])],
      log_alertes = [], liste_colis = [], sortie = []\<rparr>"


section \<open>The dictionary, the console and the two alert rules\<close>

lemma getitem_len: "length (fst (stock_getitem s k)) = quantite s k"
  by (simp add: stock_getitem_def quantite_def split: option.splits)

lemma getitem_quantite: "quantite (snd (stock_getitem s k)) k' = quantite s k'"
  by (simp add: stock_getitem_def quantite_def map_add_def split: option.splits)

lemma getitem_fields:
  "log_alertes (snd (stock_getitem s k)) = log_alertes s"
  "liste_colis (snd (stock_getitem s k)) = liste_colis s"
  "sortie (snd (stock_getitem s k)) = sortie s"
  by (simp_all add: stock_getitem_def split: option.splits)

lemma getitem_lookup:
  "map_of (stock (snd (stock_getitem s k))) k = Some (fst (stock_getitem s k))"
  by (simp add: stock_getitem_def map_add_def split: option.splits)

lemma getitem_known:
  "map_of (stock s) k = Some q \<Longrightarrow> stock_getitem s k = (q, s)"
  by (simp add: stock_getitem_def)

lemma store_quantite:
  "quantite (stock_store s k q) k' = (if k' = k then length q else quantite s k')"
  by (simp add: stock_store_def quantite_def update_conv')

lemma store_fields:
  "log_alertes (stock_store s k q) = log_alertes s"
  "liste_colis (stock_store s k q) = liste_colis s"
  "sortie (stock_store s k q) = sortie s"
  by (simp_all add: stock_store_def)

lemma print_fields:
  "stock (py_print l s) = stock s"
  "log_alertes (py_print l s) = log_alertes s"
  "liste_colis (py_print l s) = liste_colis s"
  "sortie (py_print l s) = sortie s @ [l]"
  "quantite (py_print l s) k = quantite s k"
  by (simp_all add: py_print_def quantite_def)

lemma quantite_update:
  "quantite (s\<lparr>log_alertes := l\<rparr>) k = quantite s k"
  "quantite (s\<lparr>liste_colis := c\<rparr>) k = quantite s k"
  "quantite (s\<lparr>sortie := out\<rparr>) k = quantite s k"
  by (simp_all add: quantite_def)

lemmas etat_simps = getitem_len getitem_quantite getitem_fields store_quantite store_fields
  print_fields quantite_update

lemma enregistrer_alerte_total: "\<exists>s'. enregistrer_alerte s k = Inr s'"
  by (simp add: enregistrer_alerte_def case_prod_beta Let_def)

lemma enregistrer_alerte_log:
  "enregistrer_alerte s k = Inr s' \<Longrightarrow>
   log_alertes s' =
     (if quantite s k < seuil_min \<and> k \<notin> set (log_alertes s) \<and> length (log_alertes s) < 3
      then log_alertes s @ [k] else log_alertes s)"
  by (auto simp: enregistrer_alerte_def case_prod_beta Let_def etat_simps split: if_splits)

lemma enregistrer_alerte_sortie:
  "enregistrer_alerte s k = Inr s' \<Longrightarrow>
   sortie s' = sortie s @
     (if seuil_min \<le> quantite s k \<or> k \<in> set (log_alertes s) then []
      else if length (log_alertes s) < 3 then [Alerte_activee k] else [Log_plein k])"
  by (auto simp: enregistrer_alerte_def case_prod_beta Let_def etat_simps split: if_splits)

lemma enregistrer_alerte_frame:
  "enregistrer_alerte s k = Inr s' \<Longrightarrow>
   quantite s' k' = quantite s k' \<and> liste_colis s' = liste_colis s"
  by (auto simp: enregistrer_alerte_def case_prod_beta Let_def etat_simps split: if_splits)

lemma verifier_total: "\<exists>s'. verifier_et_nettoyer_alerte s k = Inr s'"
  by (simp add: verifier_et_nettoyer_alerte_def case_prod_beta Let_def list_remove_def etat_simps)

lemma verifier_log:
  "verifier_et_nettoyer_alerte s k = Inr s' \<Longrightarrow>
   log_alertes s' =
     (if k \<in> set (log_alertes s) \<and> seuil_min \<le> quantite s k
      then remove1 k (log_alertes s) else log_alertes s)"
  by (auto simp: verifier_et_nettoyer_alerte_def case_prod_beta Let_def list_remove_def etat_simps
      split: if_splits)

lemma verifier_sortie:
  "verifier_et_nettoyer_alerte s k = Inr s' \<Longrightarrow>
   sortie s' = sortie s @
     (if k \<in> set (log_alertes s) then
        if seuil_min \<le> quantite s k then [Resolu k (quantite s k) seuil_min]
        else [Stock_bas k (quantite s k) seuil_min]
      else [])"
  by (auto simp: verifier_et_nettoyer_alerte_def case_prod_beta Let_def list_remove_def etat_simps
      split: if_splits)

lemma verifier_frame:
  "verifier_et_nettoyer_alerte s k = Inr s' \<Longrightarrow>
   quantite s' k' = quantite s k' \<and> liste_colis s' = liste_colis s"
  by (auto simp: verifier_et_nettoyer_alerte_def case_prod_beta Let_def list_remove_def etat_simps
      split: if_splits)

lemma format_valide_eq:
  "format_valide p = Inr (2 \<le> length p \<and> isalpha (hd p))"
  by (cases p) (simp_all add: format_valide_def str_getitem_def)

lemma ajouter_produit_total: "\<exists>s'. ajouter_produit s p = Inr s'"
  by (simp add: ajouter_produit_def format_valide_eq case_prod_beta Let_def verifier_total)

lemma ajouter_produit_quantite:
  "ajouter_produit s p = Inr s' \<Longrightarrow>
   quantite s' k =
     (if 2 \<le> length p \<and> isalpha (hd p) \<and> k = p then quantite s k + 1 else quantite s k)"
  by (auto simp: ajouter_produit_def format_valide_eq case_prod_beta Let_def etat_simps
      split: if_splits dest!: verifier_frame [where k' = k])

lemma ajouter_produit_log:
  "ajouter_produit s p = Inr s' \<Longrightarrow>
   log_alertes s' =
     (if 2 \<le> length p \<and> isalpha (hd p) \<and> p \<in> set (log_alertes s) \<and> seuil_min \<le> quantite s p + 1
      then remove1 p (log_alertes s) else log_alertes s)"
  by (auto simp: ajouter_produit_def format_valide_eq case_prod_beta Let_def etat_simps
      split: if_splits dest!: verifier_log)

lemma ajouter_produit_colis:
  "ajouter_produit s p = Inr s' \<Longrightarrow> liste_colis s' = liste_colis s"
  by (auto simp: ajouter_produit_def format_valide_eq case_prod_beta Let_def etat_simps
      split: if_splits dest!: verifier_frame [where k' = p])


lemma py_int_error: "py_int s = Inl e \<Longrightarrow> e = ValueError"
  by (simp add: py_int_def Let_def split: if_splits)

lemma volume_de_eq:
  "volume_de p = Inr (case py_int (drop 1 p) of Inr v \<Rightarrow> v | Inl e \<Rightarrow> 0)"
  by (auto simp: volume_de_def split: sum.splits dest: py_int_error)

lemma disponible_iff: "disponible s p \<longleftrightarrow> 0 < quantite s p"
  by (auto simp: disponible_def stock_contains_def stock_getitem_def quantite_def
      split: option.splits)

lemma popleft_getitem:
  "0 < quantite s p \<Longrightarrow>
   popleft (fst (stock_getitem s p)) = Inr (hd (fst (stock_getitem s p)), tl (fst (stock_getitem s p)))"
  by (auto simp: popleft_def stock_getitem_def quantite_def split: option.splits list.splits)

lemma getitem_tl: "length (tl (fst (stock_getitem s p))) = quantite s p - 1"
  by (simp add: getitem_len)

lemma prelever_disponible:
  "0 < quantite s p \<Longrightarrow> volume_de p = Inr v \<Longrightarrow>
   \<exists>s1. prelever (s, c) p = Inr (s1, c @ [\<lparr>id_art = p, vol = v\<rparr>])
      \<and> log_alertes s1 = log_alertes s \<and> liste_colis s1 = liste_colis s \<and> sortie s1 = sortie s
      \<and> (\<forall>k. quantite s1 k = (if k = p then quantite s p - 1 else quantite s k))"
  by (simp add: prelever_def disponible_iff case_prod_beta Let_def popleft_getitem etat_simps
      getitem_tl)

lemma prelever_rupture:
  "quantite s p = 0 \<Longrightarrow> prelever (s, c) p = Inr (py_print (Rupture p) s, c)"
  by (simp add: prelever_def disponible_iff)

lemma volume_de_volume: "volume_de p = Inr (volume p)"
  by (simp add: volume_def volume_de_eq)

lemma colis_produit_vide: "colis_produit sc [] = Inr sc"
  by (simp add: colis_produit_def)

lemma prelever_total: "\<exists>s1 c1. prelever (s, c) p = Inr (s1, c1)"
proof (cases "quantite s p = 0")
  case True
  then show ?thesis by (simp add: prelever_rupture)
next
  case False
  then show ?thesis using prelever_disponible [of s p "volume p" c]
    by (auto simp: volume_de_volume)
qed

lemma prelever_props:
  assumes "prelever (s, c) p = Inr (s1, c1)"
  shows "log_alertes s1 = log_alertes s" and "liste_colis s1 = liste_colis s"
    and "quantite s1 k = (if k = p then quantite s k - 1 else quantite s k)"
    and "c1 = (if 0 < quantite s p then c @ [\<lparr>id_art = p, vol = volume p\<rparr>] else c)"
    and "sortie s1 = sortie s @ (if quantite s p = 0 then [Rupture p] else [])"
proof -
  have "log_alertes s1 = log_alertes s \<and> liste_colis s1 = liste_colis s
    \<and> quantite s1 k = (if k = p then quantite s k - 1 else quantite s k)
    \<and> c1 = (if 0 < quantite s p then c @ [\<lparr>id_art = p, vol = volume p\<rparr>] else c)
    \<and> sortie s1 = sortie s @ (if quantite s p = 0 then [Rupture p] else [])"
  proof (cases "quantite s p = 0")
    case True
    with assms show ?thesis by (auto simp: prelever_rupture etat_simps)
  next
    case False
    with assms prelever_disponible [of s p "volume p" c] show ?thesis
      by (auto simp: volume_de_volume)
  qed
  then show "log_alertes s1 = log_alertes s" and "liste_colis s1 = liste_colis s"
    and "quantite s1 k = (if k = p then quantite s k - 1 else quantite s k)"
    and "c1 = (if 0 < quantite s p then c @ [\<lparr>id_art = p, vol = volume p\<rparr>] else c)"
    and "sortie s1 = sortie s @ (if quantite s p = 0 then [Rupture p] else [])"
    by simp_all
qed

lemma colis_produit_step:
  "p \<noteq> [] \<Longrightarrow>
   \<exists>s1 c1 s2. prelever (s, c) p = Inr (s1, c1) \<and> enregistrer_alerte s1 p = Inr s2
      \<and> colis_produit (s, c) p = Inr (s2, c1)"
proof -
  assume ne: "p \<noteq> []"
  obtain s1 c1 where 1: "prelever (s, c) p = Inr (s1, c1)" using prelever_total by blast
  obtain s2 where 2: "enregistrer_alerte s1 p = Inr s2" using enregistrer_alerte_total by blast
  from ne 1 2 have "colis_produit (s, c) p = Inr (s2, c1)" by (simp add: colis_produit_def)
  with 1 2 show ?thesis by blast
qed

lemma colis_produit_total: "\<exists>s2 c1. colis_produit (s, c) p = Inr (s2, c1)"
  using colis_produit_step [of p s c] by (cases "p = []") (auto simp: colis_produit_vide)

lemma colis_produit_props:
  assumes "colis_produit (s, c) p = Inr (s2, c1)"
  shows "liste_colis s2 = liste_colis s"
    and "quantite s2 k = (if k = p \<and> p \<noteq> [] then quantite s k - 1 else quantite s k)"
    and "c1 = (if p \<noteq> [] \<and> 0 < quantite s p then c @ [\<lparr>id_art = p, vol = volume p\<rparr>] else c)"
    and "log_alertes s2 =
      (if p \<noteq> [] \<and> quantite s p - 1 < seuil_min \<and> p \<notin> set (log_alertes s)
          \<and> length (log_alertes s) < 3
       then log_alertes s @ [p] else log_alertes s)"
    and "sortie s2 = sortie s @
      (if p = [] then []
       else (if quantite s p = 0 then [Rupture p] else []) @
            (if seuil_min \<le> quantite s p - 1 \<or> p \<in> set (log_alertes s) then []
             else if length (log_alertes s) < 3 then [Alerte_activee p] else [Log_plein p]))"
proof -
  have "liste_colis s2 = liste_colis s
    \<and> quantite s2 k = (if k = p \<and> p \<noteq> [] then quantite s k - 1 else quantite s k)
    \<and> c1 = (if p \<noteq> [] \<and> 0 < quantite s p then c @ [\<lparr>id_art = p, vol = volume p\<rparr>] else c)
    \<and> log_alertes s2 =
      (if p \<noteq> [] \<and> quantite s p - 1 < seuil_min \<and> p \<notin> set (log_alertes s)
          \<and> length (log_alertes s) < 3
       then log_alertes s @ [p] else log_alertes s)
    \<and> sortie s2 = sortie s @
      (if p = [] then []
       else (if quantite s p = 0 then [Rupture p] else []) @
            (if seuil_min \<le> quantite s p - 1 \<or> p \<in> set (log_alertes s) then []
             else if length (log_alertes s) < 3 then [Alerte_activee p] else [Log_plein p]))"
  proof (cases "p = []")
    case True
    with assms show ?thesis by (simp add: colis_produit_vide)
  next
    case False
    then obtain s1 c1' s2' where 1: "prelever (s, c) p = Inr (s1, c1')"
      and 2: "enregistrer_alerte s1 p = Inr s2'" and 3: "colis_produit (s, c) p = Inr (s2', c1')"
      using colis_produit_step by blast
    from 3 assms have eq: "s2' = s2" "c1' = c1" by simp_all
    note P = prelever_props [OF 1]
    have q: "quantite s1 p = quantite s p - 1" using P(3) [of p] by simp
    show ?thesis
      using False enregistrer_alerte_log [OF 2] enregistrer_alerte_sortie [OF 2]
        enregistrer_alerte_frame [OF 2, of k] P(1,2,4,5) P(3) [of k] q
      unfolding eq
      by (simp add: not_le)
  qed
  then show "liste_colis s2 = liste_colis s"
    and "quantite s2 k = (if k = p \<and> p \<noteq> [] then quantite s k - 1 else quantite s k)"
    and "c1 = (if p \<noteq> [] \<and> 0 < quantite s p then c @ [\<lparr>id_art = p, vol = volume p\<rparr>] else c)"
    and "log_alertes s2 =
      (if p \<noteq> [] \<and> quantite s p - 1 < seuil_min \<and> p \<notin> set (log_alertes s)
          \<and> length (log_alertes s) < 3
       then log_alertes s @ [p] else log_alertes s)"
    and "sortie s2 = sortie s @
      (if p = [] then []
       else (if quantite s p = 0 then [Rupture p] else []) @
            (if seuil_min \<le> quantite s p - 1 \<or> p \<in> set (log_alertes s) then []
             else if length (log_alertes s) < 3 then [Alerte_activee p] else [Log_plein p]))"
    by simp_all
qed

lemma colis_boucle_total: "\<exists>s1 c1. colis_boucle (s, c) ts = Inr (s1, c1)"
proof (induction ts arbitrary: s c)
  case Nil
  show ?case by simp
next
  case (Cons p ps)
  obtain s2 c2 where "colis_produit (s, c) p = Inr (s2, c2)"
    using colis_produit_total by blast
  with Cons [of s2 c2] show ?case by simp
qed

lemma colis_boucle_Cons:
  "colis_boucle (s, c) (p # ps) = Inr (s1, c1) \<Longrightarrow>
   \<exists>s2 c2. colis_produit (s, c) p = Inr (s2, c2) \<and> colis_boucle (s2, c2) ps = Inr (s1, c1)"
  by (auto split: sum.splits)

lemma colis_boucle_frame:
  "colis_boucle (s, c) ts = Inr (s1, c1) \<Longrightarrow>
   liste_colis s1 = liste_colis s \<and> quantite s1 k \<le> quantite s k
   \<and> (k \<notin> set ts \<longrightarrow> quantite s1 k = quantite s k)
   \<and> (\<exists>l. log_alertes s1 = log_alertes s @ l) \<and> (\<exists>e. c1 = c @ e)"
proof (induction ts arbitrary: s c)
  case Nil
  then show ?case by simp
next
  case (Cons p ps)
  then obtain s2 c2 where 1: "colis_produit (s, c) p = Inr (s2, c2)"
    and 2: "colis_boucle (s2, c2) ps = Inr (s1, c1)"
    using colis_boucle_Cons by blast
  note P = colis_produit_props [OF 1]
  note IH = Cons.IH [OF 2]
  have "quantite s2 k \<le> quantite s k" using P(2) [of k] by simp
  moreover have "k \<notin> set (p # ps) \<longrightarrow> quantite s2 k = quantite s k"
    using P(2) [of k] by simp
  moreover have "\<exists>l. log_alertes s2 = log_alertes s @ l" using P(4) by simp
  moreover have "\<exists>e. c2 = c @ e" using P(3) by simp
  ultimately show ?case using IH P(1) by auto
qed

lemma colis_boucle_vide_iff:
  "colis_boucle (s, c) ts = Inr (s1, c1) \<Longrightarrow>
   (c1 = c) = (\<forall>t \<in> set ts. t = [] \<or> quantite s t = 0)"
proof (induction ts arbitrary: s c)
  case Nil
  then show ?case by simp
next
  case (Cons p ps)
  then obtain s2 c2 where 1: "colis_produit (s, c) p = Inr (s2, c2)"
    and 2: "colis_boucle (s2, c2) ps = Inr (s1, c1)"
    using colis_boucle_Cons by blast
  note P = colis_produit_props [OF 1]
  note IH = Cons.IH [OF 2]
  obtain e where e: "c1 = c2 @ e" using colis_boucle_frame [OF 2] by blast
  show ?case
  proof (cases "p \<noteq> [] \<and> 0 < quantite s p")
    case True
    then have "c1 \<noteq> c" using P(3) e by auto
    with True show ?thesis by auto
  next
    case False
    then have c2: "c2 = c" using P(3) by simp
    have "\<And>k. quantite s2 k = quantite s k" using P(2) False by auto
    with IH c2 False show ?thesis by auto
  qed
qed

lemma colis_boucle_ruptures:
  "colis_boucle (s, c) ts = Inr (s1, c1) \<Longrightarrow> \<forall>t \<in> set ts. t = [] \<or> quantite s t = 0 \<Longrightarrow>
   \<exists>out. sortie s1 = sortie s @ out
      \<and> filter est_rupture out = map Rupture (filter (\<lambda>t. t \<noteq> []) ts)"
proof (induction ts arbitrary: s c)
  case Nil
  then show ?case by simp
next
  case (Cons p ps)
  then obtain s2 c2 where 1: "colis_produit (s, c) p = Inr (s2, c2)"
    and 2: "colis_boucle (s2, c2) ps = Inr (s1, c1)"
    using colis_boucle_Cons by blast
  note P = colis_produit_props [OF 1]
  have q: "\<And>k. quantite s2 k = quantite s k" using P(2) Cons.prems(2) by auto
  then have "\<forall>t \<in> set ps. t = [] \<or> quantite s2 t = 0" using Cons.prems(2) by simp
  from Cons.IH [OF 2 this] obtain out where out: "sortie s1 = sortie s2 @ out"
    "filter est_rupture out = map Rupture (filter (\<lambda>t. t \<noteq> []) ps)" by blast
  obtain o2 where o2: "sortie s2 = sortie s @ o2"
    "filter est_rupture o2 = (if p = [] then [] else [Rupture p])"
    using P(5) Cons.prems(2) by (auto simp: est_rupture_def)
  have "sortie s1 = sortie s @ (o2 @ out)" using out o2 by simp
  moreover have "filter est_rupture (o2 @ out) = map Rupture (filter (\<lambda>t. t \<noteq> []) (p # ps))"
    using out o2 by simp
  ultimately show ?case by blast
qed

lemma colis_boucle_alertes:
  "colis_boucle (s, c) ts = Inr (s1, c1) \<Longrightarrow> t \<in> set ts \<Longrightarrow> t \<noteq> [] \<Longrightarrow>
   t \<in> set (log_alertes s1) \<or> 3 \<le> length (log_alertes s1) \<or> seuil_min \<le> quantite s1 t"
proof (induction ts arbitrary: s c)
  case Nil
  then show ?case by simp
next
  case (Cons p ps)
  then obtain s2 c2 where 1: "colis_produit (s, c) p = Inr (s2, c2)"
    and 2: "colis_boucle (s2, c2) ps = Inr (s1, c1)"
    using colis_boucle_Cons by blast
  show ?case
  proof (cases "t \<in> set ps")
    case True
    from Cons.IH [OF 2 True Cons.prems(3)] show ?thesis .
  next
    case False
    with Cons.prems have tp: "t = p" by simp
    note P = colis_produit_props [OF 1]
    note F = colis_boucle_frame [OF 2, of t]
    from F False have q: "quantite s1 t = quantite s2 t" by simp
    from F obtain l where l: "log_alertes s1 = log_alertes s2 @ l" by blast
    have "t \<in> set (log_alertes s2) \<or> 3 \<le> length (log_alertes s2) \<or> seuil_min \<le> quantite s2 t"
      using P(4) P(2) [of t] tp Cons.prems(3) by (auto split: if_splits)
    with q l show ?thesis by auto
  qed
qed

lemma colis_boucle_articles:
  "colis_boucle (s, c) ts = Inr (s1, c1) \<Longrightarrow>
   \<forall>a \<in> set c. id_art a \<noteq> [] \<and> vol a = volume (id_art a) \<Longrightarrow>
   (\<forall>a \<in> set c1. id_art a \<noteq> [] \<and> vol a = volume (id_art a))
   \<and> length (filter (\<lambda>a. id_art a = k) c1) + quantite s1 k
       = length (filter (\<lambda>a. id_art a = k) c) + quantite s k"
proof (induction ts arbitrary: s c)
  case Nil
  then show ?case by simp
next
  case (Cons p ps)
  then obtain s2 c2 where 1: "colis_produit (s, c) p = Inr (s2, c2)"
    and 2: "colis_boucle (s2, c2) ps = Inr (s1, c1)"
    using colis_boucle_Cons by blast
  note P = colis_produit_props [OF 1]
  have a: "\<forall>a \<in> set c2. id_art a \<noteq> [] \<and> vol a = volume (id_art a)"
    using P(3) Cons.prems(2) by auto
  have b: "length (filter (\<lambda>a. id_art a = k) c2) + quantite s2 k
       = length (filter (\<lambda>a. id_art a = k) c) + quantite s k"
    using P(3) P(2) [of k] by auto
  from Cons.IH [OF 2 a] b show ?case by simp
qed

lemma colis_boucle_coherent:
  "colis_boucle (s, c) ts = Inr (s1, c1) \<Longrightarrow> log_coherent s \<Longrightarrow> log_coherent s1"
proof (induction ts arbitrary: s c)
  case Nil
  then show ?case by simp
next
  case (Cons p ps)
  then obtain s2 c2 where 1: "colis_produit (s, c) p = Inr (s2, c2)"
    and 2: "colis_boucle (s2, c2) ps = Inr (s1, c1)"
    using colis_boucle_Cons by blast
  note P = colis_produit_props [OF 1]
  have "log_coherent s2"
    using Cons.prems(2) P(4) P(2) unfolding log_coherent_def
    by (auto split: if_splits simp: less_diff_conv)
  from Cons.IH [OF 2 this] show ?case .
qed




lemma ajouter_boucle_total: "\<exists>s'. ajouter_boucle s ts = Inr s'"
proof (induction ts arbitrary: s)
  case Nil
  show ?case by simp
next
  case (Cons p ps)
  obtain s2 where "ajouter_produit s p = Inr s2" using ajouter_produit_total by blast
  with Cons [of s2] show ?case by simp
qed

lemma ajouter_boucle_Cons:
  "ajouter_boucle s (p # ps) = Inr s' \<Longrightarrow>
   \<exists>s2. ajouter_produit s p = Inr s2 \<and> ajouter_boucle s2 ps = Inr s'"
  by (auto split: sum.splits)



lemma ajouter_boucle_frame:
  "ajouter_boucle s ts = Inr s' \<Longrightarrow>
   liste_colis s' = liste_colis s \<and> set (log_alertes s') \<subseteq> set (log_alertes s)
   \<and> length (log_alertes s') \<le> length (log_alertes s)"
proof (induction ts arbitrary: s)
  case Nil
  then show ?case by simp
next
  case (Cons p ps)
  then obtain s2 where 1: "ajouter_produit s p = Inr s2" and 2: "ajouter_boucle s2 ps = Inr s'"
    using ajouter_boucle_Cons by blast
  have "set (log_alertes s2) \<subseteq> set (log_alertes s) \<and> length (log_alertes s2) \<le> length (log_alertes s)"
    using ajouter_produit_log [OF 1] set_remove1_subset [of p "log_alertes s"]
    by (auto simp: length_remove1)
  with Cons.IH [OF 2] ajouter_produit_colis [OF 1] show ?case by auto
qed


lemma verifier_coherent:
  "verifier_et_nettoyer_alerte s k = Inr s' \<Longrightarrow> log_coherent s \<Longrightarrow> log_coherent s'"
  using verifier_log [of s k s'] verifier_frame [of s k s']
  unfolding log_coherent_def
  by (auto simp: length_remove1 dest: notin_set_remove1 split: if_splits)

lemma enregistrer_coherent:
  "enregistrer_alerte s k = Inr s' \<Longrightarrow> log_coherent s \<Longrightarrow> log_coherent s'"
  using enregistrer_alerte_log [of s k s'] enregistrer_alerte_frame [of s k s']
  unfolding log_coherent_def
  by (auto split: if_splits)

lemma ajouter_produit_coherent:
  "ajouter_produit s p = Inr s' \<Longrightarrow> log_coherent s \<Longrightarrow> log_coherent s'"
  using ajouter_produit_log [of s p s'] ajouter_produit_quantite [of s p s']
  unfolding log_coherent_def
  by (auto simp: length_remove1 seuil_min_def dest: notin_set_remove1 split: if_splits)

lemma ajouter_boucle_coherent:
  "ajouter_boucle s ts = Inr s' \<Longrightarrow> log_coherent s \<Longrightarrow> log_coherent s'"
proof (induction ts arbitrary: s)
  case Nil
  then show ?case by simp
next
  case (Cons p ps)
  then obtain s2 where 1: "ajouter_produit s p = Inr s2" and 2: "ajouter_boucle s2 ps = Inr s'"
    using ajouter_boucle_Cons by blast
  from Cons.IH [OF 2 ajouter_produit_coherent [OF 1 Cons.prems(2)]] show ?case .
qed

lemma tri_sorted: "sorted_wrt (\<lambda>a b. k b \<le> k a) (list_sort_reverse k xs)"
proof -
  have "sorted (map k (sort_key k (rev xs)))" by simp
  then have "sorted_wrt (\<lambda>a b. k a \<le> k b) (sort_key k (rev xs))" by (simp add: sorted_map)
  then show ?thesis by (simp add: list_sort_reverse_def sorted_wrt_rev)
qed

lemma tri_stable: "filter (\<lambda>a. k a = v) (list_sort_reverse k xs) = filter (\<lambda>a. k a = v) xs"
proof -
  have "filter (\<lambda>a. k a = v) (sort_key k (rev xs)) = filter (\<lambda>a. k a = v) (rev xs)"
    by (rule sort_key_stable)
  then have "rev (filter (\<lambda>a. k a = v) (sort_key k (rev xs))) = filter (\<lambda>a. k a = v) xs"
    by (simp add: rev_filter)
  then show ?thesis by (simp add: list_sort_reverse_def rev_filter)
qed

lemma tri_mset: "mset (list_sort_reverse k xs) = mset xs"
  by (simp add: list_sort_reverse_def)

lemma tri_Nil: "list_sort_reverse k xs = [] \<longleftrightarrow> xs = []"
  using tri_mset [of k xs] by (metis mset_zero_iff)

lemma tri_length: "length (list_sort_reverse k xs) = length xs"
  by (simp add: list_sort_reverse_def)

lemma preparer_colis_eq:
  "colis_boucle (s, []) (nettoyer cmd) = Inr (s1, contenu) \<Longrightarrow>
   preparer_colis s cmd =
     Inr (if contenu = [] then s1
          else py_print (Colis_cree (length contenu))
                 (s1\<lparr>liste_colis := liste_colis s1 @ [list_sort_reverse vol contenu]\<rparr>))"
  by (simp add: preparer_colis_def Let_def tri_Nil tri_length)

lemma preparer_colis_total: "\<exists>s'. preparer_colis s cmd = Inr s'"
proof -
  obtain s1 contenu where "colis_boucle (s, []) (nettoyer cmd) = Inr (s1, contenu)"
    using colis_boucle_total by blast
  then show ?thesis using preparer_colis_eq by blast
qed

lemma preparer_colis_boucle:
  "preparer_colis s cmd = Inr s' \<Longrightarrow>
   \<exists>s1 contenu. colis_boucle (s, []) (nettoyer cmd) = Inr (s1, contenu)
      \<and> s' = (if contenu = [] then s1
          else py_print (Colis_cree (length contenu))
                 (s1\<lparr>liste_colis := liste_colis s1 @ [list_sort_reverse vol contenu]\<rparr>))"
proof -
  assume a: "preparer_colis s cmd = Inr s'"
  obtain s1 contenu where b: "colis_boucle (s, []) (nettoyer cmd) = Inr (s1, contenu)"
    using colis_boucle_total by blast
  from preparer_colis_eq [OF b] a b show ?thesis by auto
qed

lemma coherent_update:
  "log_coherent (py_print l s) = log_coherent s"
  "log_coherent (s\<lparr>liste_colis := c\<rparr>) = log_coherent s"
  by (simp_all add: log_coherent_def etat_simps)

lemma preparer_colis_coherent:
  "preparer_colis s cmd = Inr s' \<Longrightarrow> log_coherent s \<Longrightarrow> log_coherent s'"
  by (auto dest!: preparer_colis_boucle dest: colis_boucle_coherent simp: coherent_update)

lemma fold_coherent:
  "(\<And>x t. log_coherent (g x t) = log_coherent t) \<Longrightarrow>
   log_coherent (fold g xs s) = log_coherent s"
  by (induction xs arbitrary: s) simp_all

lemma afficher_inventaire_coherent:
  "afficher_inventaire s = Inr s' \<Longrightarrow> log_coherent s \<Longrightarrow> log_coherent s'"
  by (auto simp: afficher_inventaire_def Let_def fold_coherent coherent_update split: prod.splits)

lemma afficher_un_colis_coherent: "log_coherent (afficher_un_colis ic s) = log_coherent s"
  by (simp add: afficher_un_colis_def case_prod_beta Let_def fold_coherent coherent_update)

lemma fold_afficher_coherent:
  "log_coherent (fold afficher_un_colis xs s) = log_coherent s"
  by (simp add: fold_coherent afficher_un_colis_coherent)

lemma afficher_colis_coherent:
  "afficher_colis s = Inr s' \<Longrightarrow> log_coherent s \<Longrightarrow> log_coherent s'"
  by (auto simp: afficher_colis_def fold_afficher_coherent coherent_update split: if_splits)

lemma Entrepot_init_coherent: "Entrepot_init = Inr s \<Longrightarrow> log_coherent s"
proof -
  assume "Entrepot_init = Inr s"
  then have "ajouter_boucle \<lparr>stock = [], log_alertes = [], liste_colis = [], sortie = []\<rparr>
      (nettoyer ''A3, A3, B5, B5, C1, C1, A2, A2'') = Inr s"
    by (simp add: Entrepot_init_def initialiser_stock_defaut_def ajouter_lot_def)
  then show ?thesis by (rule ajouter_boucle_coherent) (simp add: log_coherent_def)
qed

lemma atteignable_coherent: "atteignable s \<Longrightarrow> log_coherent s"
proof (induction rule: atteignable.induct)
  case (init s)
  then show ?case by (rule Entrepot_init_coherent)
next
  case (ajout s chaine s')
  then show ?case by (auto simp: ajouter_lot_def dest: ajouter_boucle_coherent)
next
  case (colis s chaine s')
  then show ?case by (auto dest: preparer_colis_coherent)
next
  case (alerte s k s')
  then show ?case by (auto dest: enregistrer_coherent)
next
  case (nettoyage s k s')
  then show ?case by (auto dest: verifier_coherent)
next
  case (inventaire s s')
  then show ?case by (auto dest: afficher_inventaire_coherent)
next
  case (expedition s s')
  then show ?case by (auto dest: afficher_colis_coherent)
qed

lemma afficher_total:
  "\<exists>s'. afficher_inventaire s = Inr s'" "\<exists>s'. afficher_colis s = Inr s'"
  by (simp_all add: afficher_inventaire_def afficher_colis_def Let_def)

lemma Entrepot_init_defaut: "Entrepot_init = Inr etat_defaut"
  unfolding etat_defaut_def by code_simp

lemma preparer_colis_log_plein:
  "preparer_colis etat_defaut ''A3,A3,B5,B5,C1,C1'' = Inr etat_log_plein"
  unfolding etat_defaut_def etat_log_plein_def by code_simp

lemma atteignable_defaut: "atteignable etat_defaut"
  by (rule atteignable.init) (rule Entrepot_init_defaut)

lemma atteignable_log_plein: "atteignable etat_log_plein"
  by (rule atteignable.colis [OF atteignable_defaut preparer_colis_log_plein])

lemma colis_boucle_nouveaux:
  "colis_boucle (s, c) ts = Inr (s1, c1) \<Longrightarrow> k \<in> set (log_alertes s1) \<Longrightarrow>
   k \<notin> set (log_alertes s) \<Longrightarrow>
   quantite s1 k < seuil_min \<and> length (log_alertes s) < 3"
proof (induction ts arbitrary: s c)
  case Nil
  then show ?case by simp
next
  case (Cons p ps)
  then obtain s2 c2 where 1: "colis_produit (s, c) p = Inr (s2, c2)"
    and 2: "colis_boucle (s2, c2) ps = Inr (s1, c1)"
    using colis_boucle_Cons by blast
  note P = colis_produit_props [OF 1]
  have len: "length (log_alertes s) \<le> length (log_alertes s2)" using P(4) by simp
  show ?case
  proof (cases "k \<in> set (log_alertes s2)")
    case False
    from Cons.IH [OF 2 Cons.prems(2) False] len show ?thesis by simp
  next
    case True
    with Cons.prems(3) P(4) have kp: "k = p" and cond: "p \<noteq> []" "quantite s p - 1 < seuil_min"
      "length (log_alertes s) < 3"
      by (auto split: if_splits)
    have "quantite s2 k = quantite s k - 1" using P(2) [of k] kp cond(1) by simp
    moreover have "quantite s1 k \<le> quantite s2 k" using colis_boucle_frame [OF 2, of k] by simp
    ultimately show ?thesis using cond kp by simp
  qed
qed

lemma preparer_colis_nouveaux:
  assumes "preparer_colis s cmd = Inr s'" and "k \<in> set (log_alertes s')"
    and "k \<notin> set (log_alertes s)"
  shows "quantite s' k < seuil_min \<and> length (log_alertes s) < 3"
proof -
  from preparer_colis_boucle [OF assms(1)] obtain s1 contenu where
    b: "colis_boucle (s, []) (nettoyer cmd) = Inr (s1, contenu)"
    and s': "s' = (if contenu = [] then s1
          else py_print (Colis_cree (length contenu))
                 (s1\<lparr>liste_colis := liste_colis s1 @ [list_sort_reverse vol contenu]\<rparr>))"
    by blast
  from s' have "log_alertes s' = log_alertes s1" "quantite s' k = quantite s1 k"
    by (simp_all add: etat_simps)
  with colis_boucle_nouveaux [OF b, of k] assms(2,3) show ?thesis by simp
qed

lemma ajouter_lot_AB: "ajouter_lot etat_defaut ''AB,AB,AB'' = Inr etat_AB"
  unfolding etat_defaut_def etat_AB_def by code_simp







lemma colis_boucle_codes:
  "colis_boucle (s, c) ts = Inr (s1, c1) \<Longrightarrow>
   \<forall>a \<in> set c1. a \<in> set c \<or> id_art a \<in> set ts"
proof (induction ts arbitrary: s c)
  case Nil
  then show ?case by simp
next
  case (Cons p ps)
  then obtain s2 c2 where 1: "colis_produit (s, c) p = Inr (s2, c2)"
    and 2: "colis_boucle (s2, c2) ps = Inr (s1, c1)"
    using colis_boucle_Cons by blast
  have "\<forall>a \<in> set c2. a \<in> set c \<or> id_art a = p"
    using colis_produit_props(3) [OF 1] by auto
  with Cons.IH [OF 2] show ?case by auto
qed

lemma exemple_tokens: "nettoyer ''A1,B5,C3'' = [''A1'', ''B5'', ''C3'']"
  by code_simp

lemma exemple_volumes: "volume ''A1'' = 1" "volume ''B5'' = 5" "volume ''C3'' = 3"
  by code_simp+

lemma exemple_tri:
  "list_sort_reverse vol
     [\<lparr>id_art = ''A1'', vol = 1\<rparr>, \<lparr>id_art = ''B5'', vol = 5\<rparr>, \<lparr>id_art = ''C3'', vol = 3\<rparr>]
   = [\<lparr>id_art = ''B5'', vol = 5\<rparr>, \<lparr>id_art = ''C3'', vol = 3\<rparr>, \<lparr>id_art = ''A1'', vol = 1\<rparr>]"
  by code_simp

lemma exemple_boucle:
  assumes "0 < quantite s ''A1''" and "0 < quantite s ''B5''" and "0 < quantite s ''C3''"
    and "colis_boucle (s, []) [''A1'', ''B5'', ''C3''] = Inr (s1, contenu)"
  shows "contenu =
     [\<lparr>id_art = ''A1'', vol = 1\<rparr>, \<lparr>id_art = ''B5'', vol = 5\<rparr>, \<lparr>id_art = ''C3'', vol = 3\<rparr>]"
proof -
  from assms(4) obtain sa ca where a: "colis_produit (s, []) ''A1'' = Inr (sa, ca)"
    and ra: "colis_boucle (sa, ca) [''B5'', ''C3''] = Inr (s1, contenu)"
    using colis_boucle_Cons by blast
  from ra obtain sb cb where b: "colis_produit (sa, ca) ''B5'' = Inr (sb, cb)"
    and rb: "colis_boucle (sb, cb) [''C3''] = Inr (s1, contenu)"
    using colis_boucle_Cons by blast
  from rb obtain sc cc where c: "colis_produit (sb, cb) ''C3'' = Inr (sc, cc)"
    and rc: "colis_boucle (sc, cc) [] = Inr (s1, contenu)"
    using colis_boucle_Cons by blast
  have ca: "ca = [\<lparr>id_art = ''A1'', vol = 1\<rparr>]"
    using colis_produit_props(3) [OF a] assms(1) by (simp add: exemple_volumes)
  have qa: "quantite sa ''B5'' = quantite s ''B5''" "quantite sa ''C3'' = quantite s ''C3''"
    using colis_produit_props(2) [OF a] by simp_all
  have cb: "cb = ca @ [\<lparr>id_art = ''B5'', vol = 5\<rparr>]"
    using colis_produit_props(3) [OF b] assms(2) qa by (simp add: exemple_volumes)
  have qb: "quantite sb ''C3'' = quantite s ''C3''"
    using colis_produit_props(2) [OF b, of "''C3''"] qa by simp
  have cc: "cc = cb @ [\<lparr>id_art = ''C3'', vol = 3\<rparr>]"
    using colis_produit_props(3) [OF c] assms(3) qb by (simp add: exemple_volumes)
  from rc ca cb cc show ?thesis by simp
qed

section \<open>The claims\<close>

text \<open>
  Claim C10. In every state of a session, a code that is in the alert log has fewer than
  2 units in stock: the log never holds a code whose stock is at or above the threshold.
  The sessions considered call any method of the two classes, so the sequences of
  \<open>ajouter_lot\<close> and \<open>preparer_colis\<close> are among them.
\<close>

theorem alert_log_below_threshold:
  "atteignable s \<Longrightarrow> k \<in> set (log_alertes s) \<Longrightarrow> quantite s k < 2"
  using atteignable_coherent [of s] by (simp add: log_coherent_def seuil_min_def)

theorem alert_log_below_threshold_witness:
  "atteignable etat_log_plein \<and> ''B5'' \<in> set (log_alertes etat_log_plein)
   \<and> quantite etat_log_plein ''B5'' < 2"
proof -
  have m: "''B5'' \<in> set (log_alertes etat_log_plein)" by (simp add: etat_log_plein_def)
  from alert_log_below_threshold [OF atteignable_log_plein m] atteignable_log_plein m
  show ?thesis by simp
qed

text \<open>
  Claim C1. In every state of a session the alert log holds no code twice and at most 3
  codes. \<open>enregistrer_alerte\<close> appends its code exactly when the code has fewer than 2
  units, is not in the log and the log holds fewer than 3 codes, and changes the log in no
  other way; on a log of 3 codes it leaves the log as it is and, when the alert was due,
  prints the "log full" line. \<open>ajouter_lot\<close> adds no code to the log, and every code
  that \<open>preparer_colis\<close> adds has fewer than 2 units and found fewer than 3 codes in
  the log.
\<close>

theorem alert_log_invariant:
  "(atteignable s \<longrightarrow> distinct (log_alertes s) \<and> length (log_alertes s) \<le> 3)
   \<and> (\<exists>s'. enregistrer_alerte s k = Inr s'
        \<and> log_alertes s' =
            (if quantite s k < 2 \<and> k \<notin> set (log_alertes s) \<and> length (log_alertes s) < 3
             then log_alertes s @ [k] else log_alertes s)
        \<and> (length (log_alertes s) = 3 \<longrightarrow>
             log_alertes s' = log_alertes s
             \<and> sortie s' = sortie s @
                 (if quantite s k < 2 \<and> k \<notin> set (log_alertes s) then [Log_plein k] else [])))
   \<and> (\<forall>chaine. \<exists>s'. ajouter_lot s chaine = Inr s'
        \<and> set (log_alertes s') \<subseteq> set (log_alertes s))
   \<and> (\<forall>chaine. \<exists>s'. preparer_colis s chaine = Inr s'
        \<and> (\<forall>c \<in> set (log_alertes s'). c \<in> set (log_alertes s)
              \<or> (quantite s' c < 2 \<and> length (log_alertes s) < 3)))"
proof (intro conjI allI impI)
  assume "atteignable s"
  then have "log_coherent s" by (rule atteignable_coherent)
  then show "distinct (log_alertes s)" and "length (log_alertes s) \<le> 3"
    by (simp_all add: log_coherent_def)
next
  obtain s' where e: "enregistrer_alerte s k = Inr s'" using enregistrer_alerte_total by blast
  from enregistrer_alerte_log [OF e] enregistrer_alerte_sortie [OF e] e
  show "\<exists>s'. enregistrer_alerte s k = Inr s'
        \<and> log_alertes s' =
            (if quantite s k < 2 \<and> k \<notin> set (log_alertes s) \<and> length (log_alertes s) < 3
             then log_alertes s @ [k] else log_alertes s)
        \<and> (length (log_alertes s) = 3 \<longrightarrow>
             log_alertes s' = log_alertes s
             \<and> sortie s' = sortie s @
                 (if quantite s k < 2 \<and> k \<notin> set (log_alertes s) then [Log_plein k] else []))"
    by (auto simp: seuil_min_def)
next
  fix chaine
  obtain s' where a: "ajouter_lot s chaine = Inr s'"
    using ajouter_boucle_total by (auto simp: ajouter_lot_def)
  then have "set (log_alertes s') \<subseteq> set (log_alertes s)"
    using ajouter_boucle_frame by (simp add: ajouter_lot_def)
  with a show "\<exists>s'. ajouter_lot s chaine = Inr s'
        \<and> set (log_alertes s') \<subseteq> set (log_alertes s)" by blast
next
  fix chaine
  obtain s' where p: "preparer_colis s chaine = Inr s'" using preparer_colis_total by blast
  have "\<forall>c \<in> set (log_alertes s'). c \<in> set (log_alertes s)
              \<or> (quantite s' c < 2 \<and> length (log_alertes s) < 3)"
    using preparer_colis_nouveaux [OF p] by (auto simp: seuil_min_def)
  with p show "\<exists>s'. preparer_colis s chaine = Inr s'
        \<and> (\<forall>c \<in> set (log_alertes s'). c \<in> set (log_alertes s)
              \<or> (quantite s' c < 2 \<and> length (log_alertes s) < 3))" by blast
qed

theorem alert_log_invariant_witness:
  "atteignable etat_log_plein \<and> length (log_alertes etat_log_plein) = 3
   \<and> distinct (log_alertes etat_log_plein)
   \<and> (\<exists>s'. enregistrer_alerte etat_log_plein ''ZZ'' = Inr s'
         \<and> log_alertes s' = log_alertes etat_log_plein
         \<and> sortie s' = sortie etat_log_plein @ [Log_plein ''ZZ''])"
proof -
  have l: "length (log_alertes etat_log_plein) = 3" by (simp add: etat_log_plein_def)
  have q: "quantite etat_log_plein ''ZZ'' < 2 \<and> ''ZZ'' \<notin> set (log_alertes etat_log_plein)"
    by (simp add: etat_log_plein_def quantite_def)
  from alert_log_invariant [of etat_log_plein "''ZZ''"] atteignable_log_plein l q
  show ?thesis by auto
qed

text \<open>
  Claim C2. The check that \<open>ajouter_lot\<close> runs on a code after adding a unit of it:
  a code that is in the log and has at least 2 units loses its first entry in the log and
  the "resolved" line is printed; when the log held no code twice, the code is then out
  of the log, and a further check changes neither the log nor the console. A code that
  is in the log with fewer than 2 units stays there and the "still low" line is printed.
  For a code that is not in the log, the log and the console are unchanged whatever the
  quantity. The check changes no quantity and no parcel. One turn of the loop of
  \<open>ajouter_lot\<close> changes the log by this removal only, and \<open>ajouter_lot\<close> never
  adds a code to the log.
\<close>

theorem alert_resolution_check:
  "(\<exists>s'. verifier_et_nettoyer_alerte s k = Inr s'
      \<and> (\<forall>c. quantite s' c = quantite s c) \<and> liste_colis s' = liste_colis s
      \<and> (k \<in> set (log_alertes s) \<and> 2 \<le> quantite s k \<longrightarrow>
           log_alertes s' = remove1 k (log_alertes s)
           \<and> sortie s' = sortie s @ [Resolu k (quantite s k) 2]
           \<and> (distinct (log_alertes s) \<longrightarrow>
                k \<notin> set (log_alertes s')
                \<and> (\<exists>s''. verifier_et_nettoyer_alerte s' k = Inr s''
                      \<and> log_alertes s'' = log_alertes s' \<and> sortie s'' = sortie s')))
      \<and> (k \<in> set (log_alertes s) \<and> quantite s k < 2 \<longrightarrow>
           log_alertes s' = log_alertes s
           \<and> sortie s' = sortie s @ [Stock_bas k (quantite s k) 2])
      \<and> (k \<notin> set (log_alertes s) \<longrightarrow>
           log_alertes s' = log_alertes s \<and> sortie s' = sortie s))
   \<and> (\<exists>s'. ajouter_produit s k = Inr s'
      \<and> log_alertes s' =
          (if format_valide k = Inr True \<and> k \<in> set (log_alertes s) \<and> 2 \<le> quantite s k + 1
           then remove1 k (log_alertes s) else log_alertes s))
   \<and> (\<forall>chaine. \<exists>s'. ajouter_lot s chaine = Inr s'
      \<and> set (log_alertes s') \<subseteq> set (log_alertes s)
      \<and> length (log_alertes s') \<le> length (log_alertes s))"
proof (intro conjI allI)
  obtain s' where v: "verifier_et_nettoyer_alerte s k = Inr s'" using verifier_total by blast
  note L = verifier_log [OF v] and S = verifier_sortie [OF v] and F = verifier_frame [OF v]
  have again: "\<exists>s''. verifier_et_nettoyer_alerte s' k = Inr s''
      \<and> log_alertes s'' = log_alertes s' \<and> sortie s'' = sortie s'"
    if "k \<notin> set (log_alertes s')"
  proof -
    obtain s'' where w: "verifier_et_nettoyer_alerte s' k = Inr s''" using verifier_total by blast
    from verifier_log [OF w] verifier_sortie [OF w] that w show ?thesis by simp
  qed
  have "(\<forall>c. quantite s' c = quantite s c) \<and> liste_colis s' = liste_colis s" using F by simp
  moreover have "k \<in> set (log_alertes s) \<and> 2 \<le> quantite s k \<longrightarrow>
           log_alertes s' = remove1 k (log_alertes s)
           \<and> sortie s' = sortie s @ [Resolu k (quantite s k) 2]
           \<and> (distinct (log_alertes s) \<longrightarrow>
                k \<notin> set (log_alertes s')
                \<and> (\<exists>s''. verifier_et_nettoyer_alerte s' k = Inr s''
                      \<and> log_alertes s'' = log_alertes s' \<and> sortie s'' = sortie s'))"
    using L S again by (auto simp: seuil_min_def)
  moreover have "k \<in> set (log_alertes s) \<and> quantite s k < 2 \<longrightarrow>
           log_alertes s' = log_alertes s
           \<and> sortie s' = sortie s @ [Stock_bas k (quantite s k) 2]"
    using L S by (auto simp: seuil_min_def)
  moreover have "k \<notin> set (log_alertes s) \<longrightarrow>
           log_alertes s' = log_alertes s \<and> sortie s' = sortie s"
    using L S by auto
  ultimately show "\<exists>s'. verifier_et_nettoyer_alerte s k = Inr s'
      \<and> (\<forall>c. quantite s' c = quantite s c) \<and> liste_colis s' = liste_colis s
      \<and> (k \<in> set (log_alertes s) \<and> 2 \<le> quantite s k \<longrightarrow>
           log_alertes s' = remove1 k (log_alertes s)
           \<and> sortie s' = sortie s @ [Resolu k (quantite s k) 2]
           \<and> (distinct (log_alertes s) \<longrightarrow>
                k \<notin> set (log_alertes s')
                \<and> (\<exists>s''. verifier_et_nettoyer_alerte s' k = Inr s''
                      \<and> log_alertes s'' = log_alertes s' \<and> sortie s'' = sortie s')))
      \<and> (k \<in> set (log_alertes s) \<and> quantite s k < 2 \<longrightarrow>
           log_alertes s' = log_alertes s
           \<and> sortie s' = sortie s @ [Stock_bas k (quantite s k) 2])
      \<and> (k \<notin> set (log_alertes s) \<longrightarrow>
           log_alertes s' = log_alertes s \<and> sortie s' = sortie s)"
    using v by blast
next
  obtain s' where a: "ajouter_produit s k = Inr s'" using ajouter_produit_total by blast
  from ajouter_produit_log [OF a] a
  show "\<exists>s'. ajouter_produit s k = Inr s'
      \<and> log_alertes s' =
          (if format_valide k = Inr True \<and> k \<in> set (log_alertes s) \<and> 2 \<le> quantite s k + 1
           then remove1 k (log_alertes s) else log_alertes s)"
    by (auto simp: format_valide_eq seuil_min_def)
next
  fix chaine
  obtain s' where a: "ajouter_lot s chaine = Inr s'"
    using ajouter_boucle_total by (auto simp: ajouter_lot_def)
  with ajouter_boucle_frame [of s "nettoyer chaine" s']
  show "\<exists>s'. ajouter_lot s chaine = Inr s'
      \<and> set (log_alertes s') \<subseteq> set (log_alertes s)
      \<and> length (log_alertes s') \<le> length (log_alertes s)"
    by (auto simp: ajouter_lot_def)
qed

theorem alert_resolution_check_witness:
  "''C1'' \<in> set (log_alertes etat_avant_verification)
   \<and> 2 \<le> quantite etat_avant_verification ''C1''
   \<and> distinct (log_alertes etat_avant_verification)
   \<and> (\<exists>s'. verifier_et_nettoyer_alerte etat_avant_verification ''C1'' = Inr s'
         \<and> log_alertes s' = [''A3'', ''B5''] \<and> ''C1'' \<notin> set (log_alertes s')
         \<and> sortie s' = sortie etat_avant_verification @ [Resolu ''C1'' 2 2])"
proof -
  have h: "''C1'' \<in> set (log_alertes etat_avant_verification)"
    "quantite etat_avant_verification ''C1'' = 2"
    "distinct (log_alertes etat_avant_verification)"
    "remove1 ''C1'' (log_alertes etat_avant_verification) = [''A3'', ''B5'']"
    by (simp_all add: etat_avant_verification_def quantite_def)
  from alert_resolution_check [of etat_avant_verification "''C1''"] h
  show ?thesis by auto
qed

text \<open>
  Claim C4, as amended. The read \<^verbatim>\<open>self.stock[k]\<close> that the two alert rules use returns
  the queue of the code, whose length is the quantity, and the empty queue for an unknown
  code. It changes no quantity and leaves the alert log, the parcels and the console as
  they are; for a known code the state is unchanged. For an unknown code, however, the
  read inserts the code in the stock dictionary with an empty queue. The availability
  test of the packing loop reads a known key only and changes nothing.
\<close>

theorem quantity_read:
  "(\<forall>q. map_of (stock s) k = Some q \<longrightarrow> stock_getitem s k = (q, s))
   \<and> (map_of (stock s) k = None \<longrightarrow>
        stock_getitem s k = ([], s\<lparr>stock := stock s @ [(k, [])]\<rparr>))
   \<and> length (fst (stock_getitem s k)) = quantite s k
   \<and> (\<forall>c. quantite (snd (stock_getitem s k)) c = quantite s c)
   \<and> log_alertes (snd (stock_getitem s k)) = log_alertes s
   \<and> liste_colis (snd (stock_getitem s k)) = liste_colis s
   \<and> sortie (snd (stock_getitem s k)) = sortie s
   \<and> disponible s k = (0 < quantite s k)"
  by (simp add: etat_simps disponible_iff) (simp add: stock_getitem_def)

theorem quantity_read_witness:
  "map_of (stock etat_defaut) ''C1'' = Some [''C1'', ''C1'']
   \<and> stock_getitem etat_defaut ''C1'' = ([''C1'', ''C1''], etat_defaut)
   \<and> map_of (stock etat_defaut) ''ZZ'' = None
   \<and> fst (stock_getitem etat_defaut ''ZZ'') = []"
proof -
  have h: "map_of (stock etat_defaut) ''C1'' = Some [''C1'', ''C1'']"
    "map_of (stock etat_defaut) ''ZZ'' = None"
    by (simp_all add: etat_defaut_def)
  from quantity_read [of etat_defaut "''C1''"] quantity_read [of etat_defaut "''ZZ''"] h
  show ?thesis by simp
qed

theorem quantity_read_counterexample:
  "map_of (stock etat_defaut) ''ZZ'' = None
   \<and> fst (stock_getitem etat_defaut ''ZZ'') = []
   \<and> map_of (stock (snd (stock_getitem etat_defaut ''ZZ''))) ''ZZ'' = Some []
   \<and> snd (stock_getitem etat_defaut ''ZZ'') \<noteq> etat_defaut
   \<and> enregistrer_alerte etat_defaut ''ZZ'' =
       Inr \<lparr>stock = [(''A3'', [''A3'', ''A3'']), (''B5'', [''B5'', ''B5'']),
                      (''C1'', [''C1'', ''C1'']), (''A2'', [''A2'', ''A2'']), (''ZZ'', [])],
            log_alertes = [''ZZ''], liste_colis = [], sortie = [Alerte_activee ''ZZ'']\<rparr>"
  unfolding etat_defaut_def by code_simp



text \<open>
  Claim C3, as amended. For every token that is not empty, accepted by the format check
  or not, one turn of the loop of \<open>preparer_colis\<close> runs the availability test, which
  either takes a unit and appends the item or prints the backorder line, and then calls
  \<open>enregistrer_alerte\<close> on the token in both cases. An empty token is skipped before
  any of this: the turn leaves the state as it is. As a result, after
  \<open>preparer_colis\<close> every token of the order that is not empty is in the alert log, or
  the log holds 3 codes, or the token has at least 2 units left.
\<close>

theorem pack_alert_check:
  "(p \<noteq> [] \<longrightarrow>
      (\<exists>s1 c1 s2. prelever (s, c) p = Inr (s1, c1) \<and> enregistrer_alerte s1 p = Inr s2
          \<and> colis_produit (s, c) p = Inr (s2, c1)
          \<and> c1 = (if 0 < quantite s p then c @ [\<lparr>id_art = p, vol = volume p\<rparr>] else c)
          \<and> sortie s1 = sortie s @ (if quantite s p = 0 then [Rupture p] else [])))
   \<and> colis_produit (s, c) [] = Inr (s, c)
   \<and> (\<exists>s'. preparer_colis s chaine = Inr s'
        \<and> (\<forall>t \<in> set (nettoyer chaine). t \<noteq> [] \<longrightarrow>
              t \<in> set (log_alertes s') \<or> 3 \<le> length (log_alertes s') \<or> 2 \<le> quantite s' t))"
proof (intro conjI impI)
  assume "p \<noteq> []"
  then obtain s1 c1 s2 where 1: "prelever (s, c) p = Inr (s1, c1)"
    and 2: "enregistrer_alerte s1 p = Inr s2" and 3: "colis_produit (s, c) p = Inr (s2, c1)"
    using colis_produit_step by blast
  from prelever_props(4,5) [OF 1] 1 2 3
  show "\<exists>s1 c1 s2. prelever (s, c) p = Inr (s1, c1) \<and> enregistrer_alerte s1 p = Inr s2
          \<and> colis_produit (s, c) p = Inr (s2, c1)
          \<and> c1 = (if 0 < quantite s p then c @ [\<lparr>id_art = p, vol = volume p\<rparr>] else c)
          \<and> sortie s1 = sortie s @ (if quantite s p = 0 then [Rupture p] else [])"
    by blast
next
  show "colis_produit (s, c) [] = Inr (s, c)" by (rule colis_produit_vide)
next
  obtain s' where p: "preparer_colis s chaine = Inr s'" using preparer_colis_total by blast
  from preparer_colis_boucle [OF p] obtain s1 contenu where
    b: "colis_boucle (s, []) (nettoyer chaine) = Inr (s1, contenu)"
    and s': "s' = (if contenu = [] then s1
          else py_print (Colis_cree (length contenu))
                 (s1\<lparr>liste_colis := liste_colis s1 @ [list_sort_reverse vol contenu]\<rparr>))"
    by blast
  from s' have eq: "log_alertes s' = log_alertes s1" "\<And>t. quantite s' t = quantite s1 t"
    by (simp_all add: etat_simps)
  have "\<forall>t \<in> set (nettoyer chaine). t \<noteq> [] \<longrightarrow>
              t \<in> set (log_alertes s') \<or> 3 \<le> length (log_alertes s') \<or> 2 \<le> quantite s' t"
    using colis_boucle_alertes [OF b] unfolding eq by (auto simp: seuil_min_def)
  with p show "\<exists>s'. preparer_colis s chaine = Inr s'
        \<and> (\<forall>t \<in> set (nettoyer chaine). t \<noteq> [] \<longrightarrow>
              t \<in> set (log_alertes s') \<or> 3 \<le> length (log_alertes s') \<or> 2 \<le> quantite s' t)"
    by blast
qed

theorem pack_alert_check_witness:
  "''9X'' \<noteq> [] \<and> ''9X'' \<in> set (nettoyer ''c1, 9x'')
   \<and> (\<exists>s1 c1 s2. prelever (etat_defaut, []) ''9X'' = Inr (s1, c1)
         \<and> enregistrer_alerte s1 ''9X'' = Inr s2
         \<and> colis_produit (etat_defaut, []) ''9X'' = Inr (s2, c1))
   \<and> (\<exists>s'. preparer_colis etat_defaut ''c1, 9x'' = Inr s'
         \<and> (''9X'' \<in> set (log_alertes s') \<or> 3 \<le> length (log_alertes s')
             \<or> 2 \<le> quantite s' ''9X''))"
proof -
  note T = pack_alert_check [of "''9X''" etat_defaut "[]" "''c1, 9x''"]
  have ne: "''9X'' \<noteq> []" by simp
  have m: "''9X'' \<in> set (nettoyer ''c1, 9x'')" by code_simp
  from T ne have A: "\<exists>s1 c1 s2. prelever (etat_defaut, []) ''9X'' = Inr (s1, c1)
         \<and> enregistrer_alerte s1 ''9X'' = Inr s2
         \<and> colis_produit (etat_defaut, []) ''9X'' = Inr (s2, c1)"
    by blast
  from T obtain s' where p: "preparer_colis etat_defaut ''c1, 9x'' = Inr s'"
    and q: "\<forall>t \<in> set (nettoyer ''c1, 9x''). t \<noteq> [] \<longrightarrow>
              t \<in> set (log_alertes s') \<or> 3 \<le> length (log_alertes s') \<or> 2 \<le> quantite s' t"
    by blast
  from q m ne have "''9X'' \<in> set (log_alertes s') \<or> 3 \<le> length (log_alertes s')
             \<or> 2 \<le> quantite s' ''9X''" by blast
  with p have B: "\<exists>s'. preparer_colis etat_defaut ''c1, 9x'' = Inr s'
         \<and> (''9X'' \<in> set (log_alertes s') \<or> 3 \<le> length (log_alertes s')
             \<or> 2 \<le> quantite s' ''9X'')" by blast
  from ne m A B show ?thesis by (intro conjI)
qed

theorem pack_alert_check_counterexample:
  "nettoyer '' '' = [''''] \<and> preparer_colis etat_defaut '' '' = Inr etat_defaut
   \<and> enregistrer_alerte etat_defaut '''' =
       Inr \<lparr>stock = [(''A3'', [''A3'', ''A3'']), (''B5'', [''B5'', ''B5'']),
                      (''C1'', [''C1'', ''C1'']), (''A2'', [''A2'', ''A2'']), ('''', [])],
            log_alertes = [''''], liste_colis = [], sortie = [Alerte_activee '''']\<rparr>"
  unfolding etat_defaut_def by code_simp

text \<open>
  Claim C6. \<open>preparer_colis\<close> always returns. The loop extracts nothing exactly when
  every token of the order is empty or has no unit in stock; then the state returned is
  the one the loop left, the parcels are unchanged, and the console has received one
  backorder line for each token that is not empty, in the order of the command.
  When the loop extracted at least one item, exactly one parcel is appended, it holds the
  extracted items, and the last line printed is the success line with their number.
\<close>

theorem pack_archive:
  "\<exists>s1 contenu s'. colis_boucle (s, []) (nettoyer chaine) = Inr (s1, contenu)
     \<and> preparer_colis s chaine = Inr s'
     \<and> (contenu = []) = (\<forall>t \<in> set (nettoyer chaine). t = [] \<or> quantite s t = 0)
     \<and> (contenu = [] \<longrightarrow>
          s' = s1 \<and> liste_colis s' = liste_colis s
          \<and> (\<exists>out. sortie s' = sortie s @ out
                \<and> filter est_rupture out = map Rupture (filter (\<lambda>t. t \<noteq> []) (nettoyer chaine))))
     \<and> (contenu \<noteq> [] \<longrightarrow>
          (\<exists>colis. liste_colis s' = liste_colis s @ [colis] \<and> mset colis = mset contenu
              \<and> sortie s' = sortie s1 @ [Colis_cree (length colis)]))"
proof -
  obtain s1 contenu where b: "colis_boucle (s, []) (nettoyer chaine) = Inr (s1, contenu)"
    using colis_boucle_total by blast
  define s' where "s' = (if contenu = [] then s1
          else py_print (Colis_cree (length contenu))
                 (s1\<lparr>liste_colis := liste_colis s1 @ [list_sort_reverse vol contenu]\<rparr>))"
  have p: "preparer_colis s chaine = Inr s'" unfolding s'_def by (rule preparer_colis_eq [OF b])
  have iff: "(contenu = []) = (\<forall>t \<in> set (nettoyer chaine). t = [] \<or> quantite s t = 0)"
    using colis_boucle_vide_iff [OF b] by auto
  have fr: "liste_colis s1 = liste_colis s" using colis_boucle_frame [OF b] by simp
  have e: "contenu = [] \<longrightarrow>
          s' = s1 \<and> liste_colis s' = liste_colis s
          \<and> (\<exists>out. sortie s' = sortie s @ out
                \<and> filter est_rupture out = map Rupture (filter (\<lambda>t. t \<noteq> []) (nettoyer chaine)))"
  proof
    assume c: "contenu = []"
    then have "\<forall>t \<in> set (nettoyer chaine). t = [] \<or> quantite s t = 0" using iff by simp
    from colis_boucle_ruptures [OF b this] c fr
    show "s' = s1 \<and> liste_colis s' = liste_colis s
          \<and> (\<exists>out. sortie s' = sortie s @ out
                \<and> filter est_rupture out = map Rupture (filter (\<lambda>t. t \<noteq> []) (nettoyer chaine)))"
      by (simp add: s'_def)
  qed
  have n: "contenu \<noteq> [] \<longrightarrow>
          (\<exists>colis. liste_colis s' = liste_colis s @ [colis] \<and> mset colis = mset contenu
              \<and> sortie s' = sortie s1 @ [Colis_cree (length colis)])"
    using fr by (auto simp: s'_def etat_simps tri_mset tri_length)
  have C: "colis_boucle (s, []) (nettoyer chaine) = Inr (s1, contenu)
     \<and> preparer_colis s chaine = Inr s'
     \<and> (contenu = []) = (\<forall>t \<in> set (nettoyer chaine). t = [] \<or> quantite s t = 0)
     \<and> (contenu = [] \<longrightarrow>
          s' = s1 \<and> liste_colis s' = liste_colis s
          \<and> (\<exists>out. sortie s' = sortie s @ out
                \<and> filter est_rupture out = map Rupture (filter (\<lambda>t. t \<noteq> []) (nettoyer chaine))))
     \<and> (contenu \<noteq> [] \<longrightarrow>
          (\<exists>colis. liste_colis s' = liste_colis s @ [colis] \<and> mset colis = mset contenu
              \<and> sortie s' = sortie s1 @ [Colis_cree (length colis)]))"
    using b p iff e n by (intro conjI)
  show ?thesis by (rule exI [of _ s1], rule exI [of _ contenu], rule exI [of _ s'], rule C)
qed

theorem pack_archive_witness:
  "nettoyer ''z9, ,y8'' = [''Z9'', [], ''Y8'']
   \<and> quantite etat_defaut ''Z9'' = 0 \<and> quantite etat_defaut ''Y8'' = 0
   \<and> (\<exists>s' out. preparer_colis etat_defaut ''z9, ,y8'' = Inr s'
         \<and> liste_colis s' = liste_colis etat_defaut
         \<and> sortie s' = sortie etat_defaut @ out
         \<and> filter est_rupture out = [Rupture ''Z9'', Rupture ''Y8''])
   \<and> nettoyer ''c1'' = [''C1''] \<and> 0 < quantite etat_defaut ''C1''
   \<and> (\<exists>s' colis. preparer_colis etat_defaut ''c1'' = Inr s'
         \<and> liste_colis s' = liste_colis etat_defaut @ [colis])"
proof -
  have n1: "nettoyer ''z9, ,y8'' = [''Z9'', [], ''Y8'']" by code_simp
  have q1: "quantite etat_defaut ''Z9'' = 0" "quantite etat_defaut ''Y8'' = 0"
    unfolding etat_defaut_def by code_simp+
  have n2: "nettoyer ''c1'' = [''C1'']" by code_simp
  have q2: "0 < quantite etat_defaut ''C1''"
    unfolding etat_defaut_def by code_simp
  have h1: "\<forall>t \<in> set (nettoyer ''z9, ,y8''). t = [] \<or> quantite etat_defaut t = 0"
    using q1 by (simp add: n1)
  have h2: "map Rupture (filter (\<lambda>t. t \<noteq> []) (nettoyer ''z9, ,y8''))
      = [Rupture ''Z9'', Rupture ''Y8'']"
    by (simp add: n1)
  have h3: "\<not> (\<forall>t \<in> set (nettoyer ''c1''). t = [] \<or> quantite etat_defaut t = 0)"
    using q2 by (simp add: n2)
  from pack_archive [of etat_defaut "''z9, ,y8''"] obtain s1 contenu s' where
    a0: "colis_boucle (etat_defaut, []) (nettoyer ''z9, ,y8'') = Inr (s1, contenu)" and
    a: "preparer_colis etat_defaut ''z9, ,y8'' = Inr s'"
    "(contenu = []) = (\<forall>t \<in> set (nettoyer ''z9, ,y8''). t = [] \<or> quantite etat_defaut t = 0)"
    "contenu = [] \<longrightarrow>
          s' = s1 \<and> liste_colis s' = liste_colis etat_defaut
          \<and> (\<exists>out. sortie s' = sortie etat_defaut @ out
                \<and> filter est_rupture out
                    = map Rupture (filter (\<lambda>t. t \<noteq> []) (nettoyer ''z9, ,y8'')))"
    by (elim exE conjE) (rule that)
  from a(2) h1 have "contenu = []" by simp
  with a(3) h2 obtain out where "liste_colis s' = liste_colis etat_defaut"
    "sortie s' = sortie etat_defaut @ out"
    "filter est_rupture out = [Rupture ''Z9'', Rupture ''Y8'']" by auto
  with a(1) have A: "\<exists>s' out. preparer_colis etat_defaut ''z9, ,y8'' = Inr s'
         \<and> liste_colis s' = liste_colis etat_defaut
         \<and> sortie s' = sortie etat_defaut @ out
         \<and> filter est_rupture out = [Rupture ''Z9'', Rupture ''Y8'']" by blast
  from pack_archive [of etat_defaut "''c1''"] obtain t1 contenu' t' where
    b0: "colis_boucle (etat_defaut, []) (nettoyer ''c1'') = Inr (t1, contenu')" and
    b: "preparer_colis etat_defaut ''c1'' = Inr t'"
    "(contenu' = []) = (\<forall>t \<in> set (nettoyer ''c1''). t = [] \<or> quantite etat_defaut t = 0)"
    "contenu' \<noteq> [] \<longrightarrow>
          (\<exists>colis. liste_colis t' = liste_colis etat_defaut @ [colis] \<and> mset colis = mset contenu'
              \<and> sortie t' = sortie t1 @ [Colis_cree (length colis)])"
    by (elim exE conjE) (rule that)
  from b(2) h3 have "contenu' \<noteq> []" by simp
  with b(3) obtain colis where "liste_colis t' = liste_colis etat_defaut @ [colis]" by auto
  with b(1) have B: "\<exists>s' colis. preparer_colis etat_defaut ''c1'' = Inr s'
         \<and> liste_colis s' = liste_colis etat_defaut @ [colis]" by blast
  from n1 q1 A n2 q2 B show ?thesis by (intro conjI)
qed

text \<open>
  Claim C5. \<open>preparer_colis\<close> always returns. The items the loop extracts are pairs
  of a token of the order and its volume, one for each unit taken from the stock. The
  parcel appended is these items sorted by volume in descending order, and the sort is
  stable: it is a rearrangement of the extracted items in which the items of any one
  volume keep the order of their extraction. Packing \<^verbatim>\<open>A1,B5,C3\<close> when the three
  codes are in stock appends the parcel B5 (5), C3 (3), A1 (1).
\<close>

theorem pack_sorted_by_volume:
  "(\<exists>s1 contenu s'. colis_boucle (s, []) (nettoyer chaine) = Inr (s1, contenu)
      \<and> preparer_colis s chaine = Inr s'
      \<and> (\<forall>a \<in> set contenu. id_art a \<in> set (nettoyer chaine) \<and> id_art a \<noteq> []
            \<and> volume_de (id_art a) = Inr (vol a))
      \<and> (\<forall>k. length (filter (\<lambda>a. id_art a = k) contenu) + quantite s1 k = quantite s k)
      \<and> liste_colis s' =
          (if contenu = [] then liste_colis s
           else liste_colis s @ [list_sort_reverse vol contenu])
      \<and> sorted_wrt (\<lambda>a b. vol b \<le> vol a) (list_sort_reverse vol contenu)
      \<and> mset (list_sort_reverse vol contenu) = mset contenu
      \<and> (\<forall>v. filter (\<lambda>a. vol a = v) (list_sort_reverse vol contenu)
              = filter (\<lambda>a. vol a = v) contenu))
   \<and> (0 < quantite s ''A1'' \<and> 0 < quantite s ''B5'' \<and> 0 < quantite s ''C3'' \<longrightarrow>
        (\<exists>s'. preparer_colis s ''A1,B5,C3'' = Inr s'
           \<and> liste_colis s' = liste_colis s @
               [[\<lparr>id_art = ''B5'', vol = 5\<rparr>, \<lparr>id_art = ''C3'', vol = 3\<rparr>,
                 \<lparr>id_art = ''A1'', vol = 1\<rparr>]]))"
proof (rule conjI)
  obtain s1 contenu where b: "colis_boucle (s, []) (nettoyer chaine) = Inr (s1, contenu)"
    using colis_boucle_total by blast
  define s' where "s' = (if contenu = [] then s1
          else py_print (Colis_cree (length contenu))
                 (s1\<lparr>liste_colis := liste_colis s1 @ [list_sort_reverse vol contenu]\<rparr>))"
  have p: "preparer_colis s chaine = Inr s'" unfolding s'_def by (rule preparer_colis_eq [OF b])
  have fr: "liste_colis s1 = liste_colis s" using colis_boucle_frame [OF b] by simp
  have art: "\<forall>a \<in> set contenu. id_art a \<noteq> [] \<and> vol a = volume (id_art a)"
    using colis_boucle_articles [OF b] by simp
  have 1: "\<forall>a \<in> set contenu. id_art a \<in> set (nettoyer chaine) \<and> id_art a \<noteq> []
            \<and> volume_de (id_art a) = Inr (vol a)"
    using art colis_boucle_codes [OF b] by (simp add: volume_de_volume)
  have 2: "\<forall>k. length (filter (\<lambda>a. id_art a = k) contenu) + quantite s1 k = quantite s k"
    using colis_boucle_articles [OF b] by simp
  have 3: "liste_colis s' =
          (if contenu = [] then liste_colis s
           else liste_colis s @ [list_sort_reverse vol contenu])"
    using fr by (simp add: s'_def etat_simps)
  have 4: "\<forall>v. filter (\<lambda>a. vol a = v) (list_sort_reverse vol contenu)
      = filter (\<lambda>a. vol a = v) contenu"
    by (simp add: tri_stable)
  have C: "colis_boucle (s, []) (nettoyer chaine) = Inr (s1, contenu)
      \<and> preparer_colis s chaine = Inr s'
      \<and> (\<forall>a \<in> set contenu. id_art a \<in> set (nettoyer chaine) \<and> id_art a \<noteq> []
            \<and> volume_de (id_art a) = Inr (vol a))
      \<and> (\<forall>k. length (filter (\<lambda>a. id_art a = k) contenu) + quantite s1 k = quantite s k)
      \<and> liste_colis s' =
          (if contenu = [] then liste_colis s
           else liste_colis s @ [list_sort_reverse vol contenu])
      \<and> sorted_wrt (\<lambda>a b. vol b \<le> vol a) (list_sort_reverse vol contenu)
      \<and> mset (list_sort_reverse vol contenu) = mset contenu
      \<and> (\<forall>v. filter (\<lambda>a. vol a = v) (list_sort_reverse vol contenu)
              = filter (\<lambda>a. vol a = v) contenu)"
    using b p 1 2 3 tri_sorted [of vol contenu] tri_mset [of vol contenu] 4
    by (intro conjI)
  show "\<exists>s1 contenu s'. colis_boucle (s, []) (nettoyer chaine) = Inr (s1, contenu)
      \<and> preparer_colis s chaine = Inr s'
      \<and> (\<forall>a \<in> set contenu. id_art a \<in> set (nettoyer chaine) \<and> id_art a \<noteq> []
            \<and> volume_de (id_art a) = Inr (vol a))
      \<and> (\<forall>k. length (filter (\<lambda>a. id_art a = k) contenu) + quantite s1 k = quantite s k)
      \<and> liste_colis s' =
          (if contenu = [] then liste_colis s
           else liste_colis s @ [list_sort_reverse vol contenu])
      \<and> sorted_wrt (\<lambda>a b. vol b \<le> vol a) (list_sort_reverse vol contenu)
      \<and> mset (list_sort_reverse vol contenu) = mset contenu
      \<and> (\<forall>v. filter (\<lambda>a. vol a = v) (list_sort_reverse vol contenu)
              = filter (\<lambda>a. vol a = v) contenu)"
    by (rule exI [of _ s1], rule exI [of _ contenu], rule exI [of _ s'], rule C)
next
  show "0 < quantite s ''A1'' \<and> 0 < quantite s ''B5'' \<and> 0 < quantite s ''C3'' \<longrightarrow>
        (\<exists>s'. preparer_colis s ''A1,B5,C3'' = Inr s'
           \<and> liste_colis s' = liste_colis s @
               [[\<lparr>id_art = ''B5'', vol = 5\<rparr>, \<lparr>id_art = ''C3'', vol = 3\<rparr>,
                 \<lparr>id_art = ''A1'', vol = 1\<rparr>]])"
  proof
    assume q: "0 < quantite s ''A1'' \<and> 0 < quantite s ''B5'' \<and> 0 < quantite s ''C3''"
    obtain s1 contenu where
      b: "colis_boucle (s, []) (nettoyer ''A1,B5,C3'') = Inr (s1, contenu)"
      using colis_boucle_total by blast
    then have b': "colis_boucle (s, []) [''A1'', ''B5'', ''C3''] = Inr (s1, contenu)"
      by (simp only: exemple_tokens)
    from q have c: "contenu =
       [\<lparr>id_art = ''A1'', vol = 1\<rparr>, \<lparr>id_art = ''B5'', vol = 5\<rparr>, \<lparr>id_art = ''C3'', vol = 3\<rparr>]"
      using exemple_boucle [OF _ _ _ b'] by blast
    have fr: "liste_colis s1 = liste_colis s" using colis_boucle_frame [OF b] by simp
    from preparer_colis_eq [OF b] fr
    show "\<exists>s'. preparer_colis s ''A1,B5,C3'' = Inr s'
           \<and> liste_colis s' = liste_colis s @
               [[\<lparr>id_art = ''B5'', vol = 5\<rparr>, \<lparr>id_art = ''C3'', vol = 3\<rparr>,
                 \<lparr>id_art = ''A1'', vol = 1\<rparr>]]"
      unfolding c exemple_tri by (simp add: etat_simps)
  qed
qed

theorem pack_sorted_by_volume_witness:
  "0 < quantite etat_A1_C3 ''A1'' \<and> 0 < quantite etat_A1_C3 ''B5''
   \<and> 0 < quantite etat_A1_C3 ''C3''
   \<and> (\<exists>s'. preparer_colis etat_A1_C3 ''A1,B5,C3'' = Inr s'
         \<and> liste_colis s' =
             [[\<lparr>id_art = ''B5'', vol = 5\<rparr>, \<lparr>id_art = ''C3'', vol = 3\<rparr>,
               \<lparr>id_art = ''A1'', vol = 1\<rparr>]])"
proof -
  have h: "0 < quantite etat_A1_C3 ''A1''" "0 < quantite etat_A1_C3 ''B5''"
    "0 < quantite etat_A1_C3 ''C3''" "liste_colis etat_A1_C3 = []"
    unfolding etat_A1_C3_def by code_simp+
  from pack_sorted_by_volume [of etat_A1_C3] h
  have "\<exists>s'. preparer_colis etat_A1_C3 ''A1,B5,C3'' = Inr s'
         \<and> liste_colis s' =
             [[\<lparr>id_art = ''B5'', vol = 5\<rparr>, \<lparr>id_art = ''C3'', vol = 3\<rparr>,
               \<lparr>id_art = ''A1'', vol = 1\<rparr>]]"
    by simp
  with h(1-3) show ?thesis by (intro conjI)
qed




text \<open>
  Claim C9, as amended. \<open>ajouter_lot\<close>, \<open>preparer_colis\<close>, \<open>enregistrer_alerte\<close>,
  \<open>verifier_et_nettoyer_alerte\<close> and the two displays return a state for every state
  and every input: no exception leaves them. A token that fails the format check prints
  the "invalid format" line and the batch goes on with the next token; a token out of
  stock prints the backorder line, adds nothing to the parcel and the order goes on; an
  alert that is due while the log holds 3 codes or more prints the "log full" line and
  leaves the log as it is. A volume suffix that does not parse prints nothing: the item
  is extracted with volume 0, silently, and the order goes on.
\<close>

theorem operations_total:
  "(\<exists>s'. ajouter_lot s chaine = Inr s') \<and> (\<exists>s'. preparer_colis s chaine = Inr s')
   \<and> (\<exists>s'. enregistrer_alerte s k = Inr s') \<and> (\<exists>s'. verifier_et_nettoyer_alerte s k = Inr s')
   \<and> (\<exists>s'. afficher_inventaire s = Inr s') \<and> (\<exists>s'. afficher_colis s = Inr s')
   \<and> (format_valide k \<noteq> Inr True \<longrightarrow>
        ajouter_boucle s (k # ps) = ajouter_boucle (py_print (Format_invalide k) s) ps)
   \<and> (k \<noteq> [] \<and> quantite s k = 0 \<longrightarrow>
        (\<exists>s2 out. colis_produit (s, c) k = Inr (s2, c)
           \<and> sortie s2 = sortie s @ Rupture k # out
           \<and> colis_boucle (s, c) (k # ps) = colis_boucle (s2, c) ps))
   \<and> (quantite s k < 2 \<and> k \<notin> set (log_alertes s) \<and> 3 \<le> length (log_alertes s) \<longrightarrow>
        (\<exists>s'. enregistrer_alerte s k = Inr s' \<and> log_alertes s' = log_alertes s
           \<and> sortie s' = sortie s @ [Log_plein k]))
   \<and> (k \<noteq> [] \<and> 0 < quantite s k \<and> py_int (drop 1 k) = Inl ValueError \<longrightarrow>
        (\<exists>s1 s2. prelever (s, c) k = Inr (s1, c @ [\<lparr>id_art = k, vol = 0\<rparr>])
           \<and> sortie s1 = sortie s
           \<and> colis_produit (s, c) k = Inr (s2, c @ [\<lparr>id_art = k, vol = 0\<rparr>])
           \<and> colis_boucle (s, c) (k # ps)
               = colis_boucle (s2, c @ [\<lparr>id_art = k, vol = 0\<rparr>]) ps))"
proof (intro conjI impI)
  show "\<exists>s'. ajouter_lot s chaine = Inr s'"
    using ajouter_boucle_total by (simp add: ajouter_lot_def)
  show "\<exists>s'. preparer_colis s chaine = Inr s'" by (rule preparer_colis_total)
  show "\<exists>s'. enregistrer_alerte s k = Inr s'" by (rule enregistrer_alerte_total)
  show "\<exists>s'. verifier_et_nettoyer_alerte s k = Inr s'" by (rule verifier_total)
  show "\<exists>s'. afficher_inventaire s = Inr s'" by (rule afficher_total)
  show "\<exists>s'. afficher_colis s = Inr s'" by (rule afficher_total)
  show "ajouter_boucle s (k # ps) = ajouter_boucle (py_print (Format_invalide k) s) ps"
    if "format_valide k \<noteq> Inr True"
    using that by (auto simp: ajouter_produit_def format_valide_eq)
  show "\<exists>s2 out. colis_produit (s, c) k = Inr (s2, c)
           \<and> sortie s2 = sortie s @ Rupture k # out
           \<and> colis_boucle (s, c) (k # ps) = colis_boucle (s2, c) ps"
    if h: "k \<noteq> [] \<and> quantite s k = 0"
  proof -
    obtain s2 c1 where 1: "colis_produit (s, c) k = Inr (s2, c1)"
      using colis_produit_total by blast
    note P = colis_produit_props [OF 1]
    from P(3) h have c1: "c1 = c" by simp
    from P(5) h obtain out where "sortie s2 = sortie s @ Rupture k # out" by simp
    with 1 c1 show ?thesis by auto
  qed
  show "\<exists>s'. enregistrer_alerte s k = Inr s' \<and> log_alertes s' = log_alertes s
           \<and> sortie s' = sortie s @ [Log_plein k]"
    if h: "quantite s k < 2 \<and> k \<notin> set (log_alertes s) \<and> 3 \<le> length (log_alertes s)"
  proof -
    obtain s' where e: "enregistrer_alerte s k = Inr s'" using enregistrer_alerte_total by blast
    from enregistrer_alerte_log [OF e] enregistrer_alerte_sortie [OF e] h e
    show ?thesis by (auto simp: seuil_min_def)
  qed
  show "\<exists>s1 s2. prelever (s, c) k = Inr (s1, c @ [\<lparr>id_art = k, vol = 0\<rparr>])
           \<and> sortie s1 = sortie s
           \<and> colis_produit (s, c) k = Inr (s2, c @ [\<lparr>id_art = k, vol = 0\<rparr>])
           \<and> colis_boucle (s, c) (k # ps)
               = colis_boucle (s2, c @ [\<lparr>id_art = k, vol = 0\<rparr>]) ps"
    if h: "k \<noteq> [] \<and> 0 < quantite s k \<and> py_int (drop 1 k) = Inl ValueError"
  proof -
    from h obtain s1 c1 s2 where 1: "prelever (s, c) k = Inr (s1, c1)"
      and 2: "enregistrer_alerte s1 k = Inr s2" and 3: "colis_produit (s, c) k = Inr (s2, c1)"
      using colis_produit_step by blast
    have v: "volume k = 0" using h by (simp add: volume_def volume_de_eq)
    from prelever_props(4,5) [OF 1] h v
    have "c1 = c @ [\<lparr>id_art = k, vol = 0\<rparr>]" "sortie s1 = sortie s" by simp_all
    with 1 3 show ?thesis by auto
  qed
qed

theorem operations_total_witness:
  "format_valide ''9X'' \<noteq> Inr True
   \<and> ajouter_boucle etat_defaut [''9X'', ''A7'']
       = ajouter_boucle (py_print (Format_invalide ''9X'') etat_defaut) [''A7'']
   \<and> ''ZZ'' \<noteq> [] \<and> quantite etat_log_plein ''ZZ'' = 0
   \<and> (\<exists>s2 out. colis_produit (etat_log_plein, []) ''ZZ'' = Inr (s2, [])
         \<and> sortie s2 = sortie etat_log_plein @ Rupture ''ZZ'' # out)
   \<and> ''ZZ'' \<notin> set (log_alertes etat_log_plein) \<and> 3 \<le> length (log_alertes etat_log_plein)
   \<and> (\<exists>s'. enregistrer_alerte etat_log_plein ''ZZ'' = Inr s'
         \<and> sortie s' = sortie etat_log_plein @ [Log_plein ''ZZ''])
   \<and> 0 < quantite etat_AB ''AB'' \<and> py_int (drop 1 ''AB'') = Inl ValueError
   \<and> (\<exists>s1. prelever (etat_AB, []) ''AB'' = Inr (s1, [\<lparr>id_art = ''AB'', vol = 0\<rparr>])
         \<and> sortie s1 = sortie etat_AB)"
proof -
  have h: "format_valide ''9X'' \<noteq> Inr True" "''ZZ'' \<noteq> []" "quantite etat_log_plein ''ZZ'' = 0"
    "''ZZ'' \<notin> set (log_alertes etat_log_plein)" "3 \<le> length (log_alertes etat_log_plein)"
    "0 < quantite etat_AB ''AB''" "py_int (drop 1 ''AB'') = Inl ValueError" "''AB'' \<noteq> []"
    unfolding etat_log_plein_def etat_AB_def by code_simp+
  have A: "ajouter_boucle etat_defaut [''9X'', ''A7'']
       = ajouter_boucle (py_print (Format_invalide ''9X'') etat_defaut) [''A7'']"
    using operations_total [of etat_defaut "[]" "''9X''" "[''A7'']" "[]"] h(1) by simp
  note T = operations_total [of etat_log_plein "[]" "''ZZ''" "[]" "[]"]
  have B: "\<exists>s2 out. colis_produit (etat_log_plein, []) ''ZZ'' = Inr (s2, [])
         \<and> sortie s2 = sortie etat_log_plein @ Rupture ''ZZ'' # out"
    using T h(2,3) by auto
  have C: "\<exists>s'. enregistrer_alerte etat_log_plein ''ZZ'' = Inr s'
         \<and> sortie s' = sortie etat_log_plein @ [Log_plein ''ZZ'']"
    using T h(3,4,5) by auto
  have D: "\<exists>s1. prelever (etat_AB, []) ''AB'' = Inr (s1, [\<lparr>id_art = ''AB'', vol = 0\<rparr>])
         \<and> sortie s1 = sortie etat_AB"
    using operations_total [of etat_AB "[]" "''AB''" "[]" "[]"] h(6,7,8) by auto
  from h(1) A h(2,3) B h(4,5) C h(6,7) D show ?thesis by (intro conjI)
qed

theorem operations_total_counterexample:
  "ajouter_lot etat_defaut ''AB,AB,AB'' = Inr etat_AB
   \<and> py_int (drop 1 ''AB'') = Inl ValueError
   \<and> preparer_colis etat_AB ''AB'' =
       Inr \<lparr>stock = [(''A3'', [''A3'', ''A3'']), (''B5'', [''B5'', ''B5'']),
                      (''C1'', [''C1'', ''C1'']), (''A2'', [''A2'', ''A2'']),
                      (''AB'', [''AB'', ''AB''])],
            log_alertes = [],
            liste_colis = [[\<lparr>id_art = ''AB'', vol = 0\<rparr>]],
            sortie = [Colis_cree 1]\<rparr>"
  unfolding etat_defaut_def etat_AB_def by code_simp

end
